theory Spec2Isabelle
  imports Main "HOL-Library.Word" "HOL-Library.Multiset" "HOL-Library.Product_Lexorder"
begin

section \<open>Values of net/netip\<close>

text \<open>
  The program handles addresses and CIDR blocks as values of Go's \<^verbatim>\<open>net/netip\<close>. An address
  is an IPv4 address (32 bits) or an IPv6 address (128 bits); every prefix of the program comes
  from \<^verbatim>\<open>netip.ParsePrefix\<close> (which refuses zones) or from \<^verbatim>\<open>netip.PrefixFrom\<close>, so zones
  do not occur. A prefix is an address and the number \<^verbatim>\<open>Bits()\<close> returns: the prefix length,
  or \<open>-1\<close> for the invalid prefix. \<^verbatim>\<open>ParsePrefix\<close> does not mask the host bits of the address.
\<close>

datatype netip_Addr = IPv4 "32 word" | IPv6 "128 word"

datatype netip_Prefix = PrefixOf (Addr: netip_Addr) (Bits: int)

fun Is4 :: "netip_Addr \<Rightarrow> bool" where
  "Is4 (IPv4 a) = True"
| "Is4 (IPv6 a) = False"

fun Is6 :: "netip_Addr \<Rightarrow> bool" where
  "Is6 (IPv4 a) = False"
| "Is6 (IPv6 a) = True"

fun BitLen :: "netip_Addr \<Rightarrow> nat" where
  "BitLen (IPv4 a) = 32"
| "BitLen (IPv6 a) = 128"

text \<open>\<^verbatim>\<open>netip.PrefixFrom\<close> keeps the address as it is and invalidates an out-of-range length.\<close>

definition PrefixFrom :: "netip_Addr \<Rightarrow> int \<Rightarrow> netip_Prefix" where
  "PrefixFrom ip b = (if 0 \<le> b \<and> b \<le> int (BitLen ip) then PrefixOf ip b else PrefixOf ip (- 1))"

definition IsValid :: "netip_Prefix \<Rightarrow> bool" where
  "IsValid p = (0 \<le> Bits p \<and> Bits p \<le> int (BitLen (Addr p)))"

section \<open>Errors and panics\<close>

text \<open>
  Every error return and every run-time panic of the modelled functions is a value. The first
  two constructors are panics (they unwind the goroutine and end the process); the others are
  values of Go's \<^verbatim>\<open>error\<close>, with \<open>Wrapped\<close> for \<^verbatim>\<open>fmt.Errorf("...: %w", err)\<close>.
\<close>

datatype error =
    NegativeShift
  | BufferTooSmall
  | OpenFailed string
  | CreateFailed string
  | ParseFailed string
  | FetchFailed
  | PortNotFound
  | PrefixListsEmpty
  | ExitFailure "string list"
  | Wrapped string error

fun is_panic :: "error \<Rightarrow> bool" where
  "is_panic NegativeShift = True"
| "is_panic BufferTooSmall = True"
| "is_panic e = False"

section \<open>Splitting an IPv4 block into /24 blocks\<close>

text \<open>
  \<^verbatim>\<open>ipToInt\<close> reads the big-endian bytes of the address into a \<^verbatim>\<open>big.Int\<close>, an unbounded
  natural number here. \<^verbatim>\<open>intToIP\<close> fills four bytes with it; \<^verbatim>\<open>big.Int.FillBytes\<close> panics when
  the number does not fit.
\<close>

fun ipToInt :: "netip_Addr \<Rightarrow> nat" where
  "ipToInt (IPv4 a) = unat a"
| "ipToInt (IPv6 a) = unat a"

definition intToIP :: "nat \<Rightarrow> error + netip_Addr" where
  "intToIP ipInt = (if ipInt < 2 ^ 32 then Inr (IPv4 (of_nat ipInt)) else Inl BufferTooSmall)"

definition incrementIPBy24 :: "nat \<Rightarrow> nat" where
  "incrementIPBy24 ipInt = ipInt + 256"

text \<open>
  \<^verbatim>\<open>1 << n\<close> on Go's \<^verbatim>\<open>int\<close>, for a count \<open>n\<close> of type \<^verbatim>\<open>int\<close>: a negative count panics at run
  time. The count here is \<open>24 - Bits p\<close>, at most 25 since \<^verbatim>\<open>Bits()\<close> is at least \<open>-1\<close>, so
  the result fits the 32-bit and the 64-bit \<^verbatim>\<open>int\<close> alike and no wrap-around is written out.
\<close>

definition shiftLeft1 :: "int \<Rightarrow> error + int" where
  "shiftLeft1 n = (if n < 0 then Inl NegativeShift else Inr (2 ^ nat n))"

text \<open>The loop \<^verbatim>\<open>for i := 0; i < numBlocks; i++\<close>, with the blocks still to produce as counter.\<close>

fun splitLoop :: "nat \<Rightarrow> nat \<Rightarrow> error + netip_Prefix list" where
  "splitLoop 0 ipInt = Inr []"
| "splitLoop (Suc k) ipInt =
     (case intToIP ipInt of
        Inl e \<Rightarrow> Inl e
      | Inr ip \<Rightarrow>
          (case splitLoop k (incrementIPBy24 ipInt) of
             Inl e \<Rightarrow> Inl e
           | Inr splitPrefixes \<Rightarrow> Inr (PrefixFrom ip 24 # splitPrefixes)))"

definition processPrefixTo24 :: "netip_Prefix \<Rightarrow> error + netip_Prefix list" where
  "processPrefixTo24 p =
     (let ip = Addr p; prefixLen = Bits p in
      if prefixLen = 24 then Inr [p]
      else
        (case shiftLeft1 (24 - prefixLen) of
           Inl e \<Rightarrow> Inl e
         | Inr numBlocks \<Rightarrow> splitLoop (nat numBlocks) (ipToInt ip)))"

section \<open>The comparator and the sort\<close>

definition cmp_Compare :: "'a::linorder \<Rightarrow> 'a \<Rightarrow> int" where
  "cmp_Compare x y = (if x < y then - 1 else if y < x then 1 else 0)"

text \<open>\<^verbatim>\<open>Addr.Compare\<close>: first the bit length, then the address as an unsigned number.\<close>

definition Addr_Compare :: "netip_Addr \<Rightarrow> netip_Addr \<Rightarrow> int" where
  "Addr_Compare a b =
     (if BitLen a < BitLen b then - 1
      else if BitLen b < BitLen a then 1
      else cmp_Compare (ipToInt a) (ipToInt b))"

definition prefixCompare :: "netip_Prefix \<Rightarrow> netip_Prefix \<Rightarrow> int" where
  "prefixCompare a b =
     (let c = cmp_Compare (BitLen (Addr a)) (BitLen (Addr b)) in
      if c \<noteq> 0 then c
      else
        (let c = cmp_Compare (Bits a) (Bits b) in
         if c \<noteq> 0 then c
         else Addr_Compare (Addr a) (Addr b)))"

text \<open>
  \<^verbatim>\<open>slices.SortFunc\<close> returns a permutation of its argument that is ascending under the
  comparator. It is modelled by insertion sort; the lemma \<open>sortFunc_unique\<close> below shows
  that for \<open>prefixCompare\<close> no other sorting algorithm could return anything else.
\<close>

fun insertFunc :: "('a \<Rightarrow> 'a \<Rightarrow> int) \<Rightarrow> 'a \<Rightarrow> 'a list \<Rightarrow> 'a list" where
  "insertFunc c x [] = [x]"
| "insertFunc c x (y # ys) = (if c x y \<le> 0 then x # y # ys else y # insertFunc c x ys)"

definition slices_SortFunc :: "'a list \<Rightarrow> ('a \<Rightarrow> 'a \<Rightarrow> int) \<Rightarrow> 'a list" where
  "slices_SortFunc xs c = foldr (insertFunc c) xs []"

section \<open>Text\<close>

text \<open>
  A string is its bytes. \<open>itoa\<close> is the decimal form Go prints for a non-negative integer.
  \<^verbatim>\<open>Addr.String\<close> of an IPv4 address is the dotted quad; the text form of an IPv6 address is
  computed by the standard library and is a parameter \<open>string6\<close> of everything that prints a
  prefix. \<^verbatim>\<open>Prefix.String\<close> appends the slash and the length.
\<close>

definition NL :: string where
  "NL = [CHR 0x0A]"

definition TAB :: string where
  "TAB = [CHR 0x09]"

definition digitChar :: "nat \<Rightarrow> char" where
  "digitChar d = ''0123456789'' ! d"

function itoa :: "nat \<Rightarrow> string" where
  "itoa n = (if n < 10 then [digitChar n] else itoa (n div 10) @ [digitChar (n mod 10)])"
  by pat_completeness auto
termination
  by (relation "measure id") auto

declare itoa.simps [simp del]

definition string4 :: "32 word \<Rightarrow> string" where
  "string4 a =
     itoa (unat a div 16777216 mod 256) @ ''.'' @ itoa (unat a div 65536 mod 256) @ ''.'' @
     itoa (unat a div 256 mod 256) @ ''.'' @ itoa (unat a mod 256)"

fun Addr_String :: "(128 word \<Rightarrow> string) \<Rightarrow> netip_Addr \<Rightarrow> string" where
  "Addr_String string6 (IPv4 a) = string4 a"
| "Addr_String string6 (IPv6 a) = string6 a"

definition Prefix_String :: "(128 word \<Rightarrow> string) \<Rightarrow> netip_Prefix \<Rightarrow> string" where
  "Prefix_String string6 p =
     (if \<not> IsValid p then ''invalid Prefix''
      else Addr_String string6 (Addr p) @ ''/'' @ itoa (nat (Bits p)))"

section \<open>The world: files, commands, log\<close>

text \<open>
  The functions with effects take the world and return it. A file is its content; a path
  that \<^verbatim>\<open>os.Open\<close> cannot open (absent or unreadable) has no content. \<open>createFails\<close> tells for
  which paths \<^verbatim>\<open>os.Create\<close> fails and \<open>commandFails\<close> which external commands do not run to
  exit status 0; \<open>commands\<close> lists the external commands run so far, oldest first, and
  \<open>logs\<close> the records given to the logger (level and message, attributes left out).
  Writes to a created file do not fail in this world, so the error return after
  \<^verbatim>\<open>WriteString\<close> has no branch.
\<close>

datatype level = LevelInfo | LevelWarn | LevelError

record world =
  files :: "string \<Rightarrow> string option"
  createFails :: "string \<Rightarrow> bool"
  commandFails :: "string list \<Rightarrow> bool"
  commands :: "string list list"
  logs :: "(level \<times> string) list"

definition logMsg :: "level \<Rightarrow> string \<Rightarrow> world \<Rightarrow> world" where
  "logMsg lv msg w = w\<lparr>logs := logs w @ [(lv, msg)]\<rparr>"

definition os_Open :: "world \<Rightarrow> string \<Rightarrow> error + string" where
  "os_Open w name = (case files w name of None \<Rightarrow> Inl (OpenFailed name) | Some content \<Rightarrow> Inr content)"

text \<open>\<^verbatim>\<open>os.Create\<close> creates the file or truncates the one there.\<close>

definition os_Create :: "world \<Rightarrow> string \<Rightarrow> error + world" where
  "os_Create w name =
     (if createFails w name then Inl (CreateFailed name)
      else Inr (w\<lparr>files := (files w)(name \<mapsto> [])\<rparr>))"

definition WriteString :: "world \<Rightarrow> string \<Rightarrow> string \<Rightarrow> world" where
  "WriteString w name s =
     w\<lparr>files := (files w)(name \<mapsto> (case files w name of None \<Rightarrow> s | Some content \<Rightarrow> content @ s))\<rparr>"

definition runCommand :: "world \<Rightarrow> string list \<Rightarrow> error option \<times> world" where
  "runCommand w argv =
     (if commandFails w argv then Some (ExitFailure argv) else None,
      w\<lparr>commands := commands w @ [argv]\<rparr>)"

definition outputFileV4 :: string where
  "outputFileV4 = ''ir_prefixes_v4.txt''"

definition outputFileV6 :: string where
  "outputFileV6 = ''ir_prefixes_v6.txt''"

definition retries :: nat where
  "retries = 3"

section \<open>Fetching and filtering\<close>

text \<open>
  A record of the feed, as \<^verbatim>\<open>json.Unmarshal\<close> leaves it. The HTTP request and the parse of the
  body are outside the model: \<open>fetchPrefixes\<close> is the outcome of each call, by its number.
  A record whose CIDR is the zero prefix is neither IPv4 nor IPv6 and the filter drops it; the
  type has no such prefix.
\<close>

record Prefix =
  CIDR :: netip_Prefix
  ASN :: int

fun retryLoop ::
  "(nat \<Rightarrow> error + Prefix list) \<Rightarrow> nat \<Rightarrow> nat \<Rightarrow> error option \<Rightarrow> world \<Rightarrow>
   (error + Prefix list) \<times> world" where
  "retryLoop fetchPrefixes i 0 err w =
     (Inl (case err of None \<Rightarrow> FetchFailed | Some e \<Rightarrow> Wrapped ''all fetch attempts failed'' e), w)"
| "retryLoop fetchPrefixes i (Suc k) err w =
     (case fetchPrefixes i of
        Inr prefixes \<Rightarrow> (Inr prefixes, w)
      | Inl e \<Rightarrow> retryLoop fetchPrefixes (Suc i) k (Some e) (logMsg LevelWarn ''fetch failed'' w))"

definition fetchPrefixesWithRetry ::
  "(nat \<Rightarrow> error + Prefix list) \<Rightarrow> nat \<Rightarrow> world \<Rightarrow> (error + Prefix list) \<times> world" where
  "fetchPrefixesWithRetry fetchPrefixes n w = retryLoop fetchPrefixes 0 n None w"

fun filterLoop ::
  "int set \<Rightarrow> Prefix list \<Rightarrow> netip_Prefix list \<Rightarrow> netip_Prefix list \<Rightarrow>
   netip_Prefix list \<times> netip_Prefix list" where
  "filterLoop asnSet [] v4Prefixes v6Prefixes = (v4Prefixes, v6Prefixes)"
| "filterLoop asnSet (p # prefixes) v4Prefixes v6Prefixes =
     (if ASN p \<in> asnSet then
        (if Is4 (Addr (CIDR p)) then filterLoop asnSet prefixes (v4Prefixes @ [CIDR p]) v6Prefixes
         else if Is6 (Addr (CIDR p)) then filterLoop asnSet prefixes v4Prefixes (v6Prefixes @ [CIDR p])
         else filterLoop asnSet prefixes v4Prefixes v6Prefixes)
      else filterLoop asnSet prefixes v4Prefixes v6Prefixes)"

definition filterPrefixesByASN ::
  "Prefix list \<Rightarrow> int list \<Rightarrow> netip_Prefix list \<times> netip_Prefix list" where
  "filterPrefixesByASN prefixes asns = filterLoop (set asns) prefixes [] []"

section \<open>Writing the prefix files\<close>

text \<open>
  \<open>uniquePrefixes\<close> is a Go map used as a set. It is modelled by the list of its keys, each
  once; the order in which Go ranges over a map is not fixed, and the lemma
  \<open>sortFunc_keys_order_irrelevant\<close> below shows that the sorted list does not depend on it.
  \<open>addKeys\<close> is the inner loop over one block's parts and \<open>uniquePrefixesLoop\<close> the outer loop
  over the blocks; a panic of \<open>processPrefixTo24\<close> leaves the loop.
\<close>

fun addKeys :: "netip_Prefix list \<Rightarrow> netip_Prefix list \<Rightarrow> netip_Prefix list" where
  "addKeys uniquePrefixes [] = uniquePrefixes"
| "addKeys uniquePrefixes (p # split) =
     addKeys (if p \<in> set uniquePrefixes then uniquePrefixes else uniquePrefixes @ [p]) split"

fun uniquePrefixesLoop :: "netip_Prefix list \<Rightarrow> netip_Prefix list \<Rightarrow> error + netip_Prefix list" where
  "uniquePrefixesLoop uniquePrefixes [] = Inr uniquePrefixes"
| "uniquePrefixesLoop uniquePrefixes (p # prefixes) =
     (case processPrefixTo24 p of
        Inl e \<Rightarrow> Inl e
      | Inr split \<Rightarrow> uniquePrefixesLoop (addKeys uniquePrefixes split) prefixes)"

text \<open>The slice \<open>sortedPrefixes\<close> of \<^verbatim>\<open>writePrefixesToFileV4\<close> after \<^verbatim>\<open>slices.SortFunc\<close>.\<close>

definition sortedPrefixesV4 :: "netip_Prefix list \<Rightarrow> error + netip_Prefix list" where
  "sortedPrefixesV4 prefixes =
     (case uniquePrefixesLoop [] prefixes of
        Inl e \<Rightarrow> Inl e
      | Inr uniquePrefixes \<Rightarrow> Inr (slices_SortFunc uniquePrefixes prefixCompare))"

text \<open>The slice \<open>sortedPrefixes\<close> of \<^verbatim>\<open>writePrefixesToFileV6\<close>: a sorted copy of the argument.\<close>

definition sortedPrefixesV6 :: "netip_Prefix list \<Rightarrow> netip_Prefix list" where
  "sortedPrefixesV6 prefixes = slices_SortFunc prefixes prefixCompare"

text \<open>One \<^verbatim>\<open>WriteString(prefix.String() + "\n")\<close> for each prefix, in order.\<close>

fun writeLines :: "(128 word \<Rightarrow> string) \<Rightarrow> world \<Rightarrow> string \<Rightarrow> netip_Prefix list \<Rightarrow> world" where
  "writeLines string6 w name [] = w"
| "writeLines string6 w name (p # sortedPrefixes) =
     writeLines string6 (WriteString w name (Prefix_String string6 p @ NL)) name sortedPrefixes"

text \<open>
  The writers return the error (\<open>None\<close> for \<^verbatim>\<open>nil\<close>) and the world. When \<open>processPrefixTo24\<close>
  panics, the file has been created and nothing has been written to it: the deferred
  \<^verbatim>\<open>Flush\<close> finds an empty buffer.
\<close>

definition writePrefixesToFileV4 ::
  "(128 word \<Rightarrow> string) \<Rightarrow> world \<Rightarrow> netip_Prefix list \<Rightarrow> string \<Rightarrow> error option \<times> world" where
  "writePrefixesToFileV4 string6 w prefixes outputFile =
     (if length prefixes = 0 then (None, logMsg LevelInfo ''no prefixes to write'' w)
      else
        (case os_Create w outputFile of
           Inl err \<Rightarrow> (Some (Wrapped ''creating output file'' err), w)
         | Inr w1 \<Rightarrow>
             (case sortedPrefixesV4 prefixes of
                Inl e \<Rightarrow> (Some e, w1)
              | Inr sortedPrefixes \<Rightarrow>
                  (None,
                   logMsg LevelInfo ''wrote IPv4 /24 prefixes to file''
                     (writeLines string6 w1 outputFile sortedPrefixes)))))"

definition writePrefixesToFileV6 ::
  "(128 word \<Rightarrow> string) \<Rightarrow> world \<Rightarrow> netip_Prefix list \<Rightarrow> string \<Rightarrow> error option \<times> world" where
  "writePrefixesToFileV6 string6 w prefixes outputFile =
     (if length prefixes = 0 then (None, logMsg LevelInfo ''no prefixes to write'' w)
      else
        (case os_Create w outputFile of
           Inl err \<Rightarrow> (Some (Wrapped ''creating output file'' err), w)
         | Inr w1 \<Rightarrow>
             (None,
              logMsg LevelInfo ''wrote IPv6 prefixes to file''
                (writeLines string6 w1 outputFile (sortedPrefixesV6 prefixes)))))"

text \<open>
  \<^verbatim>\<open>startFetchPrefixes\<close> runs the two writers in two goroutines and waits for both. They write
  different files and each logs the error its writer returns; when neither panics both
  run to their end, and the model runs the IPv4 writer first. The list of ASNs comes from
  \<^verbatim>\<open>asnsToFilter\<close>, a parameter here.

  A panic of the IPv4 writer ends the process, wherever the IPv6 goroutine then is. How far
  it has come is not fixed by the program, so it is a parameter: the goroutine has not yet
  touched the world (\<open>NotStarted\<close>), or its writer has created the file and \<open>k\<close> bytes of its
  lines have reached the file (\<open>Created k\<close>; the buffered writer passes the bytes on in pieces),
  or the writer has returned and its error, if any, is logged (\<open>Returned\<close>). A writer that
  returns before or at \<^verbatim>\<open>os.Create\<close> has no state between the first and the last.
  \<open>startFetchPrefixes\<close> returns the panic, if any, and the world.
\<close>

datatype progress = NotStarted | Created nat | Returned

definition logIfError :: "string \<Rightarrow> error option \<times> world \<Rightarrow> world" where
  "logIfError msg r = (case r of (None, w) \<Rightarrow> w | (Some err, w) \<Rightarrow> logMsg LevelError msg w)"

definition v6AtPanic ::
  "(128 word \<Rightarrow> string) \<Rightarrow> progress \<Rightarrow> world \<Rightarrow> netip_Prefix list \<Rightarrow> string \<Rightarrow> world" where
  "v6AtPanic string6 pr w prefixes outputFile =
     (case pr of
        NotStarted \<Rightarrow> w
      | Created k \<Rightarrow>
          (if length prefixes = 0 then w
           else
             (case os_Create w outputFile of
                Inl err \<Rightarrow> w
              | Inr w1 \<Rightarrow>
                  WriteString w1 outputFile
                    (take k (concat (map (\<lambda>p. Prefix_String string6 p @ NL) (sortedPrefixesV6 prefixes))))))
      | Returned \<Rightarrow>
          logIfError ''writing IPv6 prefixes'' (writePrefixesToFileV6 string6 w prefixes outputFile))"

definition startFetchPrefixes ::
  "(128 word \<Rightarrow> string) \<Rightarrow> (nat \<Rightarrow> error + Prefix list) \<Rightarrow> int list \<Rightarrow> progress \<Rightarrow> world \<Rightarrow>
   error option \<times> world" where
  "startFetchPrefixes string6 fetchPrefixes asnsToFilter pr w =
     (case fetchPrefixesWithRetry fetchPrefixes retries
             (logMsg LevelInfo ''starting processing for ASNs'' w) of
        (Inl err, w1) \<Rightarrow> (None, logMsg LevelError ''fetching prefixes failed'' w1)
      | (Inr prefixes, w1) \<Rightarrow>
          (case filterPrefixesByASN prefixes asnsToFilter of
             (v4Prefixes, v6Prefixes) \<Rightarrow>
               (case writePrefixesToFileV4 string6 w1 v4Prefixes outputFileV4 of
                  (r4, w2) \<Rightarrow>
                    if (case r4 of None \<Rightarrow> False | Some err \<Rightarrow> is_panic err)
                    then (r4, v6AtPanic string6 pr w2 v6Prefixes outputFileV6)
                    else
                      (let w3 = logIfError ''writing IPv4 prefixes'' (r4, w2);
                           w4 = logIfError ''writing IPv6 prefixes''
                                  (writePrefixesToFileV6 string6 w3 v6Prefixes outputFileV6)
                       in (None, logMsg LevelInfo ''processing complete'' w4)))))"

section \<open>Reading files by lines\<close>

text \<open>
  \<^verbatim>\<open>bufio.Scanner\<close> with its default split function and its default buffer: the content is
  cut at every line feed, one carriage return at the end of a line is dropped, and what follows
  the last line feed is a line when it is not empty. The buffer grows to \<^verbatim>\<open>MaxScanTokenSize\<close>
  bytes and no further: when that many bytes after the last line feed hold no line feed,
  \<^verbatim>\<open>Scan\<close> returns false with \<^verbatim>\<open>ErrTooLong\<close>. Neither \<^verbatim>\<open>findSSHPort\<close> nor \<^verbatim>\<open>readPrefixes\<close> looks
  at \<^verbatim>\<open>scanner.Err()\<close>, so for them the lines end there. \<open>scanFrom\<close> takes the bytes of the
  line begun and the content still to read.
\<close>

definition dropCR :: "string \<Rightarrow> string" where
  "dropCR s = (if s \<noteq> [] \<and> last s = CHR 0x0D then butlast s else s)"

definition MaxScanTokenSize :: nat where
  "MaxScanTokenSize = 65536"

fun scanFrom :: "string \<Rightarrow> string \<Rightarrow> string list" where
  "scanFrom cur [] = (if cur = [] then [] else [dropCR cur])"
| "scanFrom cur (c # cs) =
     (if c = CHR 0x0A then dropCR cur # scanFrom [] cs
      else if MaxScanTokenSize \<le> length cur + 1 then []
      else scanFrom (cur @ [c]) cs)"

definition ScanLines :: "string \<Rightarrow> string list" where
  "ScanLines content = scanFrom [] content"

text \<open>
  \<^verbatim>\<open>strings.TrimSpace\<close> removes the white space of Unicode at both ends. The string is UTF-8:
  \<open>spaceRunes\<close> lists the encodings of the white-space characters, which are the six of ASCII,
  U+0085, U+00A0, U+1680, U+2000 to U+200A, U+2028, U+2029, U+202F, U+205F and U+3000. No
  encoding is the beginning or the end of another, and a byte sequence that is not a valid
  encoding decodes to no white space, so the white-space character at the start (at the end)
  of a string is the encoding the string starts (ends) with. \<open>spaceWidth\<close> and
  \<open>lastSpaceWidth\<close> are its length in bytes, 0 when there is none.
\<close>

definition spaceRunes :: "string list" where
  "spaceRunes =
     [[CHR 0x09], [CHR 0x0A], [CHR 0x0B], [CHR 0x0C], [CHR 0x0D], [CHR 0x20],
      [CHR 0xC2, CHR 0x85], [CHR 0xC2, CHR 0xA0], [CHR 0xE1, CHR 0x9A, CHR 0x80],
      [CHR 0xE2, CHR 0x80, CHR 0x80], [CHR 0xE2, CHR 0x80, CHR 0x81], [CHR 0xE2, CHR 0x80, CHR 0x82],
      [CHR 0xE2, CHR 0x80, CHR 0x83], [CHR 0xE2, CHR 0x80, CHR 0x84], [CHR 0xE2, CHR 0x80, CHR 0x85],
      [CHR 0xE2, CHR 0x80, CHR 0x86], [CHR 0xE2, CHR 0x80, CHR 0x87], [CHR 0xE2, CHR 0x80, CHR 0x88],
      [CHR 0xE2, CHR 0x80, CHR 0x89], [CHR 0xE2, CHR 0x80, CHR 0x8A], [CHR 0xE2, CHR 0x80, CHR 0xA8],
      [CHR 0xE2, CHR 0x80, CHR 0xA9], [CHR 0xE2, CHR 0x80, CHR 0xAF], [CHR 0xE2, CHR 0x81, CHR 0x9F],
      [CHR 0xE3, CHR 0x80, CHR 0x80]]"

definition spaceWidth :: "string \<Rightarrow> nat" where
  "spaceWidth s =
     (if take 1 s \<in> set spaceRunes then 1
      else if take 2 s \<in> set spaceRunes then 2
      else if take 3 s \<in> set spaceRunes then 3
      else 0)"

definition lastSpaceWidth :: "string \<Rightarrow> nat" where
  "lastSpaceWidth s =
     (if drop (length s - 1) s \<in> set spaceRunes then 1
      else if drop (length s - 2) s \<in> set spaceRunes then 2
      else if drop (length s - 3) s \<in> set spaceRunes then 3
      else 0)"

function TrimLeft :: "string \<Rightarrow> string" where
  "TrimLeft s = (if spaceWidth s = 0 then s else TrimLeft (drop (spaceWidth s) s))"
  by pat_completeness auto
termination
proof (relation "measure length")
  show "wf (measure length)" by simp
next
  fix s :: string
  assume "spaceWidth s \<noteq> 0"
  then have "s \<noteq> [] \<and> 0 < spaceWidth s"
    by (auto simp: spaceWidth_def spaceRunes_def split: if_splits)
  then show "(drop (spaceWidth s) s, s) \<in> measure length" by simp
qed

function TrimRight :: "string \<Rightarrow> string" where
  "TrimRight s = (if lastSpaceWidth s = 0 then s else TrimRight (take (length s - lastSpaceWidth s) s))"
  by pat_completeness auto
termination
proof (relation "measure length")
  show "wf (measure length)" by simp
next
  fix s :: string
  assume "lastSpaceWidth s \<noteq> 0"
  then have "s \<noteq> [] \<and> 0 < lastSpaceWidth s"
    by (auto simp: lastSpaceWidth_def spaceRunes_def split: if_splits)
  then show "(take (length s - lastSpaceWidth s) s, s) \<in> measure length" by simp
qed

declare TrimLeft.simps [simp del]

declare TrimRight.simps [simp del]

definition TrimSpace :: "string \<Rightarrow> string" where
  "TrimSpace s = TrimRight (TrimLeft s)"

text \<open>
  \<^verbatim>\<open>readPrefixes\<close>: the prefixes of the non-blank lines, or an error when the file cannot be
  opened or a line does not parse. \<^verbatim>\<open>netip.ParsePrefix\<close> is a parameter.
\<close>

fun parseLines :: "(string \<Rightarrow> netip_Prefix option) \<Rightarrow> string list \<Rightarrow> netip_Prefix list \<Rightarrow>
    error + netip_Prefix list" where
  "parseLines ParsePrefix [] prefixes = Inr prefixes"
| "parseLines ParsePrefix (text # rest) prefixes =
     (let line = TrimSpace text in
      if line \<noteq> [] then
        (case ParsePrefix line of
           None \<Rightarrow> Inl (Wrapped ''failed parsing prefix'' (ParseFailed line))
         | Some p \<Rightarrow> parseLines ParsePrefix rest (prefixes @ [p]))
      else parseLines ParsePrefix rest prefixes)"

definition readPrefixes ::
  "(string \<Rightarrow> netip_Prefix option) \<Rightarrow> world \<Rightarrow> string \<Rightarrow> error + netip_Prefix list" where
  "readPrefixes ParsePrefix w filePath =
     (case os_Open w filePath of
        Inl err \<Rightarrow> Inl (OpenFailed filePath)
      | Inr content \<Rightarrow> parseLines ParsePrefix (ScanLines content) [])"

section \<open>Finding the port of sshd\<close>

definition ipv4File :: string where
  "ipv4File = ''ir_prefixes_v4.txt''"

definition ipv6File :: string where
  "ipv6File = ''ir_prefixes_v6.txt''"

definition nftablesConf :: string where
  "nftablesConf = ''/etc/nftables.conf''"

definition sshdConfigPath :: string where
  "sshdConfigPath = ''/etc/ssh/sshd_config''"

definition defaultSSHPort :: "16 word" where
  "defaultSSHPort = 22"

text \<open>
  The regular expression \<^verbatim>\<open>^Port\s+(\d+)\<close>, matched at the start of the line:
  \<^verbatim>\<open>\s\<close> is one of tab, line feed, form feed, carriage return and space, \<^verbatim>\<open>\d\<close> a decimal digit,
  and both repetitions are greedy. \<open>FindStringSubmatch\<close> returns the group \<^verbatim>\<open>match[1]\<close>.
\<close>

definition reSpace :: "char \<Rightarrow> bool" where
  "reSpace c = (c \<in> {CHR 0x09, CHR 0x0A, CHR 0x0C, CHR 0x0D, CHR '' ''})"

definition isDigit :: "char \<Rightarrow> bool" where
  "isDigit c = (c \<in> set ''0123456789'')"

definition FindStringSubmatch :: "string \<Rightarrow> string option" where
  "FindStringSubmatch line =
     (if take 4 line = ''Port'' then
        (let spaces = takeWhile reSpace (drop 4 line);
             digits = takeWhile isDigit (dropWhile reSpace (drop 4 line))
         in if spaces \<noteq> [] \<and> digits \<noteq> [] then Some digits else None)
      else None)"

text \<open>\<^verbatim>\<open>strconv.ParseUint(s, 10, 16)\<close>: the value of the digits, an error above 65535.\<close>

definition digitVal :: "char \<Rightarrow> nat" where
  "digitVal c = of_char c - of_char (CHR ''0'')"

definition ParseUint16 :: "string \<Rightarrow> nat option" where
  "ParseUint16 s =
     (if s = [] \<or> \<not> list_all isDigit s then None
      else
        (let m = foldl (\<lambda>acc c. 10 * acc + digitVal c) 0 s
         in if m < 65536 then Some m else None))"

text \<open>
  The loop of \<^verbatim>\<open>findSSHPort\<close> over the lines: a line that does not match is passed over, a
  matching line whose number does not parse is logged and passed over, and the first line that
  matches and parses ends the loop.
\<close>

fun scanPort :: "string list \<Rightarrow> world \<Rightarrow> (error + 16 word) \<times> world" where
  "scanPort [] w = (Inl PortNotFound, w)"
| "scanPort (line # rest) w =
     (case FindStringSubmatch line of
        None \<Rightarrow> scanPort rest w
      | Some digits \<Rightarrow>
          (case ParseUint16 digits of
             None \<Rightarrow> scanPort rest (logMsg LevelWarn ''fail to parse Port'' w)
           | Some m \<Rightarrow> (Inr (of_nat m), w)))"

definition findSSHPort :: "world \<Rightarrow> (error + 16 word) \<times> world" where
  "findSSHPort w =
     (let w0 = logMsg LevelInfo ''finding SSH port'' w in
      case os_Open w0 sshdConfigPath of
        Inl err \<Rightarrow> (Inl (Wrapped ''could not open sshd configuration'' err), w0)
      | Inr content \<Rightarrow> scanPort (ScanLines content) w0)"

section \<open>Rendering the ruleset\<close>

text \<open>
  \<^verbatim>\<open>renderNftablesTemplate\<close> executes a fixed template. Its text is written out here as the
  template's trim markers leave it: \<^verbatim>\<open>{{-\<close> removes the white space before an action. The
  values printed are a prefix (by \<^verbatim>\<open>String\<close>) and the port (in decimal); their text holds no
  character that html/template escapes. The execution of this template has no failing
  action, so the result is always the document.
\<close>

text \<open>The \<^verbatim>\<open>range\<close> over a set's prefixes: each on a line of its own, a comma after all but the last.\<close>

fun elements :: "(128 word \<Rightarrow> string) \<Rightarrow> netip_Prefix list \<Rightarrow> string" where
  "elements string6 [] = []"
| "elements string6 [item] = NL @ TAB @ TAB @ TAB @ Prefix_String string6 item"
| "elements string6 (item # rest) =
     NL @ TAB @ TAB @ TAB @ Prefix_String string6 item @ '','' @ elements string6 rest"

definition sshRule :: "16 word \<Rightarrow> string" where
  "sshRule sshdPort = NL @ TAB @ TAB @ ''tcp dport '' @ itoa (unat sshdPort) @ '' accept''"

definition renderNftablesTemplate ::
  "(128 word \<Rightarrow> string) \<Rightarrow> 16 word \<Rightarrow> netip_Prefix list \<Rightarrow> netip_Prefix list \<Rightarrow> error + string" where
  "renderNftablesTemplate string6 sshdPort v4Prefixes v6Prefixes =
     Inr (''#!/usr/sbin/nft -f'' @ NL @ NL @ ''flush ruleset'' @ NL @ NL @ ''table inet filter {'' @
       (if length v4Prefixes \<noteq> 0 then
          NL @ TAB @ ''set allowed_ipv4 {'' @
          NL @ TAB @ TAB @ ''type ipv4_addr; flags interval; auto-merge;'' @
          NL @ TAB @ TAB @ ''elements = {'' @ elements string6 v4Prefixes @
          NL @ TAB @ TAB @ ''}'' @ NL @ TAB @ ''}''
        else []) @
       (if length v6Prefixes \<noteq> 0 then
          NL @ TAB @ ''set allowed_ipv6 {'' @
          NL @ TAB @ TAB @ ''type ipv6_addr; flags interval; auto-merge;'' @
          NL @ TAB @ TAB @ ''elements = {'' @ elements string6 v6Prefixes @
          NL @ TAB @ TAB @ ''}'' @ NL @ TAB @ ''}''
        else []) @
       NL @ NL @ TAB @ ''chain input {'' @
       NL @ TAB @ TAB @ ''type filter hook input priority filter; policy drop;'' @
       NL @ TAB @ TAB @ ''ct state established,related accept'' @
       NL @ TAB @ TAB @ ''iif lo accept'' @
       sshRule sshdPort @
       (if length v4Prefixes \<noteq> 0 then NL @ TAB @ TAB @ ''ip saddr @allowed_ipv4 accept'' else []) @
       (if length v6Prefixes \<noteq> 0 then NL @ TAB @ TAB @ ''ip6 saddr @allowed_ipv6 accept'' else []) @
       NL @ TAB @ ''}'' @ NL @ NL @ TAB @ ''chain forward {'' @
       NL @ TAB @ TAB @ ''type filter hook forward priority filter; policy drop;'' @
       NL @ TAB @ ''}'' @ NL @ NL @ TAB @ ''chain output {'' @
       NL @ TAB @ TAB @ ''type filter hook output priority filter; policy accept;'' @
       NL @ TAB @ ''}'' @ NL @ ''}'' @ NL)"

section \<open>Writing, loading and verifying the ruleset\<close>

text \<open>
  \<open>readOrEmpty\<close> is the pattern of \<^verbatim>\<open>initializeNftablesConf\<close> around each call of
  \<^verbatim>\<open>readPrefixes\<close>: an error is logged and the list is taken as empty.
\<close>

definition readOrEmpty ::
  "(string \<Rightarrow> netip_Prefix option) \<Rightarrow> world \<Rightarrow> string \<Rightarrow> netip_Prefix list \<times> world" where
  "readOrEmpty ParsePrefix w filePath =
     (case readPrefixes ParsePrefix w filePath of
        Inl err \<Rightarrow> ([], logMsg LevelError ''failed to read prefixes file'' w)
      | Inr prefixes \<Rightarrow> (prefixes, w))"

definition initializeNftablesConf ::
  "(128 word \<Rightarrow> string) \<Rightarrow> (string \<Rightarrow> netip_Prefix option) \<Rightarrow> world \<Rightarrow> 16 word \<Rightarrow>
   error option \<times> world" where
  "initializeNftablesConf string6 ParsePrefix w sshdPort =
     (case readOrEmpty ParsePrefix (logMsg LevelInfo ''initializing nftables configuration'' w) ipv4File of
        (ipv4Prefixes, w1) \<Rightarrow>
          (case readOrEmpty ParsePrefix w1 ipv6File of
             (ipv6Prefixes, w2) \<Rightarrow>
               if length ipv4Prefixes = 0 \<and> length ipv6Prefixes = 0 then (Some PrefixListsEmpty, w2)
               else
                 (case renderNftablesTemplate string6 sshdPort ipv4Prefixes ipv6Prefixes of
                    Inl err \<Rightarrow> (Some err, w2)
                  | Inr config \<Rightarrow>
                      (case os_Create w2 nftablesConf of
                         Inl err \<Rightarrow> (Some (Wrapped ''error creating nftables.conf'' err), w2)
                       | Inr w3 \<Rightarrow> (None, WriteString w3 nftablesConf config)))))"

definition applyNftables :: "world \<Rightarrow> error option \<times> world" where
  "applyNftables w =
     (case runCommand (logMsg LevelInfo ''applying nftables configuration'' w)
             [''nft'', ''-f'', nftablesConf] of
        (Some err, w1) \<Rightarrow> (Some (Wrapped ''failed to apply nftables configuration'' err), w1)
      | (None, w1) \<Rightarrow>
          (case runCommand w1 [''systemctl'', ''enable'', ''--now'', ''nftables''] of
             (Some err, w2) \<Rightarrow>
               (Some (Wrapped ''failed to enable and start nftables services'' err), w2)
           | (None, w2) \<Rightarrow> (None, w2)))"

definition verifyNftables :: "world \<Rightarrow> error option \<times> world" where
  "verifyNftables w =
     runCommand (logMsg LevelInfo ''verifying nftables ruleset'' w) [''nft'', ''list'', ''ruleset'']"

text \<open>
  \<^verbatim>\<open>startSetupNftables\<close>; the pauses between its steps change nothing in the world.
  \<open>portOrDefault\<close> is its first step: the port \<open>findSSHPort\<close> returns, or after an error the
  default port and a warning.
\<close>

definition portOrDefault :: "world \<Rightarrow> 16 word \<times> world" where
  "portOrDefault w =
     (case findSSHPort w of
        (Inl err, w0) \<Rightarrow>
          (defaultSSHPort,
           logMsg LevelWarn ''couldn't find port from sshd configuration file, using default 22'' w0)
      | (Inr port, w0) \<Rightarrow> (port, w0))"

definition startSetupNftables ::
  "(128 word \<Rightarrow> string) \<Rightarrow> (string \<Rightarrow> netip_Prefix option) \<Rightarrow> world \<Rightarrow> error option \<times> world" where
  "startSetupNftables string6 ParsePrefix w =
     (case portOrDefault w of
        (sshdPort, w1) \<Rightarrow>
          (case initializeNftablesConf string6 ParsePrefix w1 sshdPort of
             (Some err, w2) \<Rightarrow> (Some (Wrapped ''failed to initialize nftables configuration'' err), w2)
           | (None, w2) \<Rightarrow>
               (case applyNftables (logMsg LevelInfo ''nftables configuration initialized'' w2) of
                  (Some err, w3) \<Rightarrow> (Some (Wrapped ''failed to apply nftables configuration'' err), w3)
                | (None, w3) \<Rightarrow>
                    (case verifyNftables
                            (logMsg LevelInfo ''configuration applied and nftables service started'' w3) of
                       (Some err, w4) \<Rightarrow> (Some (Wrapped ''failed to verify nftables ruleset'' err), w4)
                     | (None, w4) \<Rightarrow>
                         (None,
                          logMsg LevelInfo ''configuration is saved''
                            (logMsg LevelInfo
                               ''nftables setup is complete. Your server is now Iran-Access-Only except for SSH port''
                               w4))))))"

section \<open>Notions of the statements\<close>

text \<open>
  The key by which \<open>prefixCompare\<close> orders: the bit length of the family, the prefix length,
  the address as a number.
\<close>

definition sortKey :: "netip_Prefix \<Rightarrow> nat \<times> int \<times> nat" where
  "sortKey p = (BitLen (Addr p), Bits p, ipToInt (Addr p))"

text \<open>
  \<^verbatim>\<open>Prefix.Contains\<close>: the address is of the block's family and agrees with the block's address
  on the first \<open>Bits\<close> bits. The address range of a block is the set of addresses it contains.
\<close>

definition Contains :: "netip_Prefix \<Rightarrow> netip_Addr \<Rightarrow> bool" where
  "Contains p ip =
     (IsValid p \<and> BitLen ip = BitLen (Addr p) \<and>
      ipToInt ip div 2 ^ (BitLen ip - nat (Bits p)) =
        ipToInt (Addr p) div 2 ^ (BitLen ip - nat (Bits p)))"

definition addressRange :: "netip_Prefix \<Rightarrow> netip_Addr set" where
  "addressRange p = {ip. Contains p ip}"


text \<open>
  The port a line of the sshd configuration gives: the line matches the regular expression and
  its number parses as an unsigned integer of 16 bits.
\<close>

definition portOfLine :: "string \<Rightarrow> nat option" where
  "portOfLine line = (case FindStringSubmatch line of None \<Rightarrow> None | Some digits \<Rightarrow> ParseUint16 digits)"

text \<open>The content of a file with one line for each prefix.\<close>

definition fileLines :: "(128 word \<Rightarrow> string) \<Rightarrow> netip_Prefix list \<Rightarrow> string" where
  "fileLines string6 ps = concat (map (\<lambda>p. Prefix_String string6 p @ NL) ps)"

text \<open>A world with no file, in which every file can be created and every command succeeds.\<close>

definition emptyWorld :: world where
  "emptyWorld =
     \<lparr>files = (\<lambda>name. None), createFails = (\<lambda>name. False), commandFails = (\<lambda>argv. False),
      commands = [], logs = []\<rparr>"

section \<open>The comparator is a total order on prefixes\<close>

lemma sortKey_inj: "sortKey a = sortKey b \<Longrightarrow> a = b"
  by (cases a; cases b; cases "Addr a"; cases "Addr b") (auto simp: sortKey_def word_unat_eq_iff)

lemma prefixCompare_le: "prefixCompare a b \<le> 0 \<longleftrightarrow> sortKey a \<le> sortKey b"
  by (auto simp: prefixCompare_def cmp_Compare_def Addr_Compare_def sortKey_def Let_def less_eq_prod_def)

lemma prefixCompare_less: "prefixCompare a b < 0 \<longleftrightarrow> sortKey a < sortKey b"
  by (auto simp: prefixCompare_def cmp_Compare_def Addr_Compare_def sortKey_def Let_def less_prod_def)

lemma prefixCompare_eq: "prefixCompare a b = 0 \<longleftrightarrow> a = b"
proof
  assume "prefixCompare a b = 0"
  then have "sortKey a = sortKey b"
    by (auto simp: prefixCompare_def cmp_Compare_def Addr_Compare_def sortKey_def Let_def split: if_splits)
  then show "a = b" by (rule sortKey_inj)
next
  assume "a = b" then show "prefixCompare a b = 0"
    by (simp add: prefixCompare_def cmp_Compare_def Addr_Compare_def)
qed

lemma insertFunc_insort: "insertFunc prefixCompare x xs = insort_key sortKey x xs"
  by (induction xs) (auto simp: prefixCompare_le)

lemma SortFunc_sort: "slices_SortFunc xs prefixCompare = sort_key sortKey xs"
  by (induction xs) (auto simp: slices_SortFunc_def sort_key_def insertFunc_insort)

lemma splitLoop_ok:
  "ipInt + 256 * k \<le> 2 ^ 32 \<Longrightarrow>
   splitLoop k ipInt = Inr (map (\<lambda>i. PrefixOf (IPv4 (of_nat (ipInt + 256 * i))) 24) [0..<k])"
proof (induction k arbitrary: ipInt)
  case 0
  then show ?case by simp
next
  case (Suc k)
  have lt: "ipInt < 2 ^ 32" using Suc.prems by simp
  have "incrementIPBy24 ipInt + 256 * k \<le> 2 ^ 32" using Suc.prems by (simp add: incrementIPBy24_def)
  from Suc.IH[OF this] lt show ?case
    by (simp add: intToIP_def PrefixFrom_def incrementIPBy24_def upt_rec[of 0 "Suc k"] map_Suc_upt[symmetric] del: upt_Suc)
qed

lemma inj_sortKey: "inj sortKey"
  by (rule injI) (rule sortKey_inj)

lemma sorted_wrt_le_key: "sorted_wrt (\<lambda>a b. prefixCompare a b \<le> 0) xs \<longleftrightarrow> sorted (map sortKey xs)"
  by (simp add: sorted_map prefixCompare_le)

lemma sorted_wrt_less_key: "sorted_wrt (\<lambda>a b. prefixCompare a b < 0) xs \<longleftrightarrow> sorted (map sortKey xs) \<and> distinct xs"
proof -
  have "sorted_wrt (\<lambda>a b. prefixCompare a b < 0) xs \<longleftrightarrow> sorted_wrt (<) (map sortKey xs)"
    by (simp add: sorted_wrt_map prefixCompare_less)
  also have "\<dots> \<longleftrightarrow> sorted (map sortKey xs) \<and> distinct (map sortKey xs)"
    by (rule strict_sorted_iff)
  also have "distinct (map sortKey xs) \<longleftrightarrow> distinct xs"
    by (simp add: distinct_map inj_on_subset[OF inj_sortKey])
  finally show ?thesis .
qed

lemma SortFunc_sorted: "sorted_wrt (\<lambda>a b. prefixCompare a b \<le> 0) (slices_SortFunc xs prefixCompare)"
  by (simp add: sorted_wrt_le_key SortFunc_sort)

lemma SortFunc_mset: "mset (slices_SortFunc xs prefixCompare) = mset xs"
  by (simp add: SortFunc_sort)

lemma SortFunc_set: "set (slices_SortFunc xs prefixCompare) = set xs"
  by (simp add: SortFunc_sort)

lemma SortFunc_distinct: "distinct (slices_SortFunc xs prefixCompare) = distinct xs"
  by (simp add: SortFunc_sort)




section \<open>The decomposition into /24 blocks\<close>

lemma masked_bound:
  fixes a :: "32 word"
  assumes n: "n < 24" and m: "unat a mod 2 ^ (32 - n) = 0"
  shows "unat a + 256 * 2 ^ (24 - n) \<le> 2 ^ 32"
proof -
  let ?m = "(2::nat) ^ (32 - n)"
  from m obtain A where A: "unat a = ?m * A" by (auto simp: mod_eq_0_iff_dvd elim: dvdE)
  have p: "(2::nat) ^ 32 = ?m * 2 ^ n"
    using n by (simp add: power_add[symmetric])
  have "unat a < 2 ^ 32" using unsigned_less[of a] by simp
  then have "?m * A < ?m * 2 ^ n" using A p by simp
  then have "A < 2 ^ n" by simp
  then have "Suc A \<le> 2 ^ n" by simp
  then have "?m * Suc A \<le> ?m * 2 ^ n" by (rule mult_le_mono2)
  moreover have "(256::nat) * 2 ^ (24 - n) = ?m"
  proof -
    have "(256::nat) = 2 ^ 8" by simp
    then have "(256::nat) * 2 ^ (24 - n) = 2 ^ (8 + (24 - n))" by (simp only: power_add)
    also have "8 + (24 - n) = 32 - n" using n by simp
    finally show ?thesis .
  qed
  ultimately show ?thesis using A p by simp
qed

lemma block_unat:
  fixes a :: "32 word"
  assumes "unat a + 256 * k \<le> 2 ^ 32" and "i < k"
  shows "unat (a + 256 * of_nat i) = unat a + 256 * i"
proof -
  have lt: "unat a + 256 * i < 2 ^ 32" using assms by simp
  have "a + 256 * of_nat i = (of_nat (unat a + 256 * i) :: 32 word)" by simp
  then have "unat (a + 256 * of_nat i) = (unat a + 256 * i) mod 2 ^ 32"
    by (simp only: unat_of_nat) simp
  then show ?thesis using lt by simp
qed

lemma splitLoop_blocks:
  fixes a :: "32 word"
  assumes "unat a + 256 * k \<le> 2 ^ 32"
  shows "splitLoop k (unat a) = Inr (map (\<lambda>i. PrefixOf (IPv4 (a + 256 * of_nat i)) 24) [0..<k])"
  using splitLoop_ok[OF assms] by simp

lemma addKeys_fresh:
  "distinct xs \<Longrightarrow> set u \<inter> set xs = {} \<Longrightarrow> addKeys u xs = u @ xs"
  by (induction xs arbitrary: u) auto

lemma set_addKeys: "set (addKeys u xs) = set u \<union> set xs"
  by (induction xs arbitrary: u) auto

lemma distinct_addKeys: "distinct u \<Longrightarrow> distinct (addKeys u xs)"
  by (induction xs arbitrary: u) auto

lemma Contains_24:
  "Contains (PrefixOf (IPv4 c) 24) ip \<longleftrightarrow> (\<exists>x. ip = IPv4 x \<and> unat x div 256 = unat c div 256)"
  by (cases ip) (auto simp: Contains_def IsValid_def)

lemma Contains_v4:
  "n \<le> 32 \<Longrightarrow> Contains (PrefixOf (IPv4 a) (int n)) ip \<longleftrightarrow>
     (\<exists>x. ip = IPv4 x \<and> unat x div 2 ^ (32 - n) = unat a div 2 ^ (32 - n))"
  by (cases ip) (auto simp: Contains_def IsValid_def)

lemma div_block:
  fixes X A K i :: nat
  assumes "0 < K"
  shows "(\<exists>i<K. X = A * K + i) \<longleftrightarrow> X div K = A"
proof
  assume "\<exists>i<K. X = A * K + i"
  then obtain i where "i < K" "X = A * K + i" by blast
  then show "X div K = A" by simp
next
  assume "X div K = A"
  then have "X = A * K + X mod K" by (metis div_mult_mod_eq)
  moreover have "X mod K < K" using assms by simp
  ultimately show "\<exists>i<K. X = A * K + i" by blast
qed

lemma range_union:
  fixes a :: "32 word"
  assumes n: "n < 24" and m: "unat a mod 2 ^ (32 - n) = 0"
  shows "(\<Union>i<2 ^ (24 - n). addressRange (PrefixOf (IPv4 (a + 256 * of_nat i)) 24)) =
         addressRange (PrefixOf (IPv4 a) (int n))"
proof -
  let ?K = "(2::nat) ^ (24 - n)"
  have bound: "unat a + 256 * ?K \<le> 2 ^ 32" by (rule masked_bound[OF n m])
  have mK: "(2::nat) ^ (32 - n) = 256 * ?K"
  proof -
    have "(256::nat) = 2 ^ 8" by simp
    then have "(256::nat) * 2 ^ (24 - n) = 2 ^ (8 + (24 - n))" by (simp only: power_add)
    also have "8 + (24 - n) = 32 - n" using n by simp
    finally show ?thesis by simp
  qed
  from m obtain A where A: "unat a = (256 * ?K) * A" unfolding mK by (auto simp: mod_eq_0_iff_dvd elim: dvdE)
  have a256: "unat a div 256 = A * ?K" using A by simp
  have adiv: "unat a div (256 * ?K) = A" using A by simp
  have blk: "\<And>i. i < ?K \<Longrightarrow> unat (a + 256 * of_nat i) div 256 = A * ?K + i"
    using block_unat[OF bound] A by simp
  have xdiv: "\<And>x::32 word. unat x div (256 * ?K) = (unat x div 256) div ?K"
    by (simp add: div_mult2_eq)
  show ?thesis
  proof (rule set_eqI)
    fix ip
    have "ip \<in> (\<Union>i<?K. addressRange (PrefixOf (IPv4 (a + 256 * of_nat i)) 24)) \<longleftrightarrow>
          (\<exists>x. ip = IPv4 x \<and> (\<exists>i<?K. unat x div 256 = A * ?K + i))"
      using blk by (auto simp: addressRange_def Contains_24)
    also have "\<dots> \<longleftrightarrow> (\<exists>x. ip = IPv4 x \<and> (unat x div 256) div ?K = A)"
      by (simp add: div_block)
    also have "\<dots> \<longleftrightarrow> ip \<in> addressRange (PrefixOf (IPv4 a) (int n))"
      using n adiv xdiv by (simp add: addressRange_def Contains_v4 mK)
    finally show "ip \<in> (\<Union>i<?K. addressRange (PrefixOf (IPv4 (a + 256 * of_nat i)) 24)) \<longleftrightarrow>
      ip \<in> addressRange (PrefixOf (IPv4 a) (int n))" .
  qed
qed

lemma range_disjoint:
  fixes a :: "32 word"
  assumes bound: "unat a + 256 * K \<le> 2 ^ 32"
    and ij: "i < K" "j < K" "i \<noteq> j"
  shows "addressRange (PrefixOf (IPv4 (a + 256 * of_nat i)) 24) \<inter>
         addressRange (PrefixOf (IPv4 (a + 256 * of_nat j)) 24) = {}"
proof -
  have "unat (a + 256 * of_nat i) div 256 \<noteq> unat (a + 256 * of_nat j) div 256"
    using block_unat[OF bound ij(1)] block_unat[OF bound ij(2)] ij(3) by simp
  then show ?thesis by (auto simp: addressRange_def Contains_24)
qed

lemma blocks_distinct:
  fixes a :: "32 word"
  assumes bound: "unat a + 256 * K \<le> 2 ^ 32"
  shows "distinct (map (\<lambda>i. PrefixOf (IPv4 (a + 256 * of_nat i)) 24) [0..<K])"
proof -
  have "inj_on (\<lambda>i. PrefixOf (IPv4 (a + 256 * of_nat i)) 24) {0..<K}"
  proof (rule inj_onI)
    fix i j assume ij: "i \<in> {0..<K}" "j \<in> {0..<K}"
      and eq: "PrefixOf (IPv4 (a + 256 * of_nat i)) 24 = PrefixOf (IPv4 (a + 256 * of_nat j)) 24"
    from eq have "unat (a + 256 * of_nat i) = unat (a + 256 * of_nat j)" by simp
    then show "i = j" using block_unat[OF bound, of i] block_unat[OF bound, of j] ij by simp
  qed
  then show ?thesis by (simp add: distinct_map)
qed

lemma blocks_sorted:
  fixes a :: "32 word"
  assumes bound: "unat a + 256 * K \<le> 2 ^ 32"
  shows "sorted (map sortKey (map (\<lambda>i. PrefixOf (IPv4 (a + 256 * of_nat i)) 24) [0..<K]))"
proof -
  have "sortKey (PrefixOf (IPv4 (a + 256 * of_nat i)) 24) \<le> sortKey (PrefixOf (IPv4 (a + 256 * of_nat j)) 24)"
    if "i < j" "j < K" for i j
    using block_unat[OF bound, of i] block_unat[OF bound, of j] that
    by (simp add: sortKey_def less_eq_prod_def)
  then show ?thesis
    by (simp add: sorted_iff_nth_mono_less)
qed

lemma SortFunc_sorted_id:
  "sorted (map sortKey xs) \<Longrightarrow> slices_SortFunc xs prefixCompare = xs"
  by (simp add: SortFunc_sort sort_key_id_if_sorted)

text \<open>
  Claim C1. An IPv4 block of prefix length \<open>n < 24\<close> whose address has no host bit set is
  split by \<open>processPrefixTo24\<close> into the \<open>2 ^ (24 - n)\<close> blocks of length 24 whose addresses
  are the block's address plus 0, 256, 512, ...; the set and the sort of the IPv4 writer leave
  this list as it is; the blocks are distinct, their address ranges are disjoint in pairs and
  the union of the ranges is the range of the block. A block of length 24 is returned
  unchanged.
\<close>

theorem processPrefixTo24_decomposition:
  fixes a :: "32 word"
  shows
  "(Bits p = 24 \<longrightarrow> processPrefixTo24 p = Inr [p] \<and> sortedPrefixesV4 [p] = Inr [p]) \<and>
   (n < 24 \<and> unat a mod 2 ^ (32 - n) = 0 \<longrightarrow>
      (let blocks = map (\<lambda>i. PrefixOf (IPv4 (a + 256 * of_nat i)) 24) [0..<2 ^ (24 - n)] in
       processPrefixTo24 (PrefixOf (IPv4 a) (int n)) = Inr blocks \<and>
       sortedPrefixesV4 [PrefixOf (IPv4 a) (int n)] = Inr blocks \<and>
       length blocks = 2 ^ (24 - n) \<and> distinct blocks \<and>
       \<Union> (addressRange ` set blocks) = addressRange (PrefixOf (IPv4 a) (int n)) \<and>
       (\<forall>i j. i < j \<and> j < length blocks \<longrightarrow>
          addressRange (blocks ! i) \<inter> addressRange (blocks ! j) = {})))"
proof (intro conjI impI)
  assume b: "Bits p = 24"
  then show "processPrefixTo24 p = Inr [p]" by (simp add: processPrefixTo24_def)
  with b show "sortedPrefixesV4 [p] = Inr [p]"
    by (simp add: sortedPrefixesV4_def slices_SortFunc_def)
next
  assume h: "n < 24 \<and> unat a mod 2 ^ (32 - n) = 0"
  let ?K = "(2::nat) ^ (24 - n)"
  let ?blocks = "map (\<lambda>i. PrefixOf (IPv4 (a + 256 * of_nat i)) 24) [0..<?K]"
  from h have n: "n < 24" and m: "unat a mod 2 ^ (32 - n) = 0" by simp_all
  have bound: "unat a + 256 * ?K \<le> 2 ^ 32" by (rule masked_bound[OF n m])
  have proc: "processPrefixTo24 (PrefixOf (IPv4 a) (int n)) = Inr ?blocks"
    using n splitLoop_blocks[OF bound]
    by (simp add: processPrefixTo24_def shiftLeft1_def nat_diff_distrib' nat_power_eq)
  have dist: "distinct ?blocks" by (rule blocks_distinct[OF bound])
  have srt: "sortedPrefixesV4 [PrefixOf (IPv4 a) (int n)] = Inr ?blocks"
    using proc addKeys_fresh[OF dist, of "[]"] SortFunc_sorted_id[OF blocks_sorted[OF bound]]
    by (simp add: sortedPrefixesV4_def)
  have un: "\<Union> (addressRange ` set ?blocks) = addressRange (PrefixOf (IPv4 a) (int n))"
    using range_union[OF n m] by (simp add: image_image lessThan_atLeast0)
  have disj: "\<forall>i j. i < j \<and> j < length ?blocks \<longrightarrow>
          addressRange (?blocks ! i) \<inter> addressRange (?blocks ! j) = {}"
    using range_disjoint[OF bound] by simp
  show "let blocks = ?blocks in
       processPrefixTo24 (PrefixOf (IPv4 a) (int n)) = Inr blocks \<and>
       sortedPrefixesV4 [PrefixOf (IPv4 a) (int n)] = Inr blocks \<and>
       length blocks = 2 ^ (24 - n) \<and> distinct blocks \<and>
       \<Union> (addressRange ` set blocks) = addressRange (PrefixOf (IPv4 a) (int n)) \<and>
       (\<forall>i j. i < j \<and> j < length blocks \<longrightarrow>
          addressRange (blocks ! i) \<inter> addressRange (blocks ! j) = {})"
    unfolding Let_def using proc srt dist un disj by simp
qed

text \<open>The block 198.51.100.0/23 gives 198.51.100.0/24 and 198.51.101.0/24.\<close>

theorem processPrefixTo24_decomposition_witness:
  "processPrefixTo24 (PrefixOf (IPv4 0xC6336400) 23) =
     Inr [PrefixOf (IPv4 0xC6336400) 24, PrefixOf (IPv4 0xC6336500) 24] \<and>
   sortedPrefixesV4 [PrefixOf (IPv4 0xC6336400) 23] =
     Inr [PrefixOf (IPv4 0xC6336400) 24, PrefixOf (IPv4 0xC6336500) 24] \<and>
   processPrefixTo24 (PrefixOf (IPv4 0xC6336400) 24) = Inr [PrefixOf (IPv4 0xC6336400) 24]"
proof -
  have up: "[0..<2::nat] = [0, 1]" by (simp add: numeral_2_eq_2)
  show ?thesis
    using processPrefixTo24_decomposition[of "PrefixOf (IPv4 0xC6336400) 24" 23 "0xC6336400"]
    by (simp add: Let_def up)
qed

section \<open>The set and the sort of the IPv4 writer\<close>

lemma splitLoop_bits: "splitLoop k ipInt = Inr s \<Longrightarrow> q \<in> set s \<Longrightarrow> Bits q = 24"
proof (induction k arbitrary: ipInt s)
  case 0
  then show ?case by simp
next
  case (Suc k)
  then show ?case
    by (auto simp: intToIP_def PrefixFrom_def split: if_splits sum.splits)
qed

lemma processPrefixTo24_bits: "processPrefixTo24 p = Inr s \<Longrightarrow> q \<in> set s \<Longrightarrow> Bits q = 24"
  by (auto simp: processPrefixTo24_def Let_def shiftLeft1_def split: if_splits dest: splitLoop_bits)

lemma processPrefixTo24_24: "Bits p = 24 \<Longrightarrow> processPrefixTo24 p = Inr [p]"
  by (simp add: processPrefixTo24_def)

lemma processPrefixTo24_panics: "24 < Bits p \<Longrightarrow> processPrefixTo24 p = Inl NegativeShift"
  by (simp add: processPrefixTo24_def shiftLeft1_def)

lemma uniquePrefixesLoop_distinct:
  "uniquePrefixesLoop u ps = Inr r \<Longrightarrow> distinct u \<Longrightarrow> distinct r"
  by (induction ps arbitrary: u) (auto simp: distinct_addKeys split: sum.splits)

lemma uniquePrefixesLoop_bits:
  "uniquePrefixesLoop u ps = Inr r \<Longrightarrow> \<forall>q\<in>set u. Bits q = 24 \<Longrightarrow> q \<in> set r \<Longrightarrow> Bits q = 24"
proof (induction ps arbitrary: u)
  case Nil
  then show ?case by simp
next
  case (Cons p ps)
  from Cons.prems(1) obtain s where s: "processPrefixTo24 p = Inr s"
    and l: "uniquePrefixesLoop (addKeys u s) ps = Inr r"
    by (auto split: sum.splits)
  have "\<forall>q\<in>set (addKeys u s). Bits q = 24"
    using Cons.prems(2) processPrefixTo24_bits[OF s] by (auto simp: set_addKeys)
  from Cons.IH[OF l this Cons.prems(3)] show ?case .
qed

text \<open>The set of keys after the loop: the keys before and the parts of every block.\<close>

lemma uniquePrefixesLoop_set:
  "uniquePrefixesLoop u ps = Inr r \<Longrightarrow>
   set r = set u \<union> {q. \<exists>p\<in>set ps. \<exists>s. processPrefixTo24 p = Inr s \<and> q \<in> set s}"
proof (induction ps arbitrary: u)
  case Nil
  then show ?case by simp
next
  case (Cons p ps)
  from Cons.prems obtain s where s: "processPrefixTo24 p = Inr s"
    and l: "uniquePrefixesLoop (addKeys u s) ps = Inr r"
    by (auto split: sum.splits)
  from Cons.IH[OF l] s show ?case by (auto simp: set_addKeys)
qed

lemma uniquePrefixesLoop_succeeds:
  "(\<exists>r. uniquePrefixesLoop u ps = Inr r) \<longleftrightarrow> (\<forall>p\<in>set ps. \<exists>s. processPrefixTo24 p = Inr s)"
  by (induction ps arbitrary: u) (auto split: sum.splits)

lemma uniquePrefixesLoop_24:
  "\<forall>q\<in>set xs. Bits q = 24 \<Longrightarrow> distinct (u @ xs) \<Longrightarrow> uniquePrefixesLoop u xs = Inr (u @ xs)"
  by (induction xs arbitrary: u) (auto simp: processPrefixTo24_24)

lemma sortedPrefixesV4_props:
  assumes "sortedPrefixesV4 ps = Inr out"
  shows "distinct out" and "sorted (map sortKey out)" and "\<forall>q\<in>set out. Bits q = 24"
proof -
  from assms obtain r where r: "uniquePrefixesLoop [] ps = Inr r"
    and out: "out = slices_SortFunc r prefixCompare"
    by (auto simp: sortedPrefixesV4_def split: sum.splits)
  have "distinct r" using uniquePrefixesLoop_distinct[OF r] by simp
  then show "distinct out" by (simp add: out SortFunc_distinct)
  show "sorted (map sortKey out)" by (simp add: out SortFunc_sort)
  show "\<forall>q\<in>set out. Bits q = 24"
    using uniquePrefixesLoop_bits[OF r] by (simp add: out SortFunc_set)
qed

lemma sortedPrefixesV4_fixed:
  assumes "\<forall>q\<in>set xs. Bits q = 24" and "distinct xs" and "sorted (map sortKey xs)"
  shows "sortedPrefixesV4 xs = Inr xs"
  using uniquePrefixesLoop_24[of xs "[]"] assms
  by (simp add: sortedPrefixesV4_def SortFunc_sorted_id)


section \<open>What the writers leave in the files\<close>

lemma fileLines_Nil: "fileLines string6 [] = []"
  by (simp add: fileLines_def)

lemma fileLines_Cons: "fileLines string6 (p # ps) = Prefix_String string6 p @ NL @ fileLines string6 ps"
  by (simp add: fileLines_def)

lemma writeLines_files:
  "files w name = Some c \<Longrightarrow>
   files (writeLines string6 w name ps) = (files w)(name \<mapsto> c @ fileLines string6 ps)"
proof (induction ps arbitrary: w c)
  case Nil
  then show ?case by (auto simp: fileLines_Nil)
next
  case (Cons p ps)
  have "files (WriteString w name (Prefix_String string6 p @ NL)) name = Some (c @ Prefix_String string6 p @ NL)"
    using Cons.prems by (simp add: WriteString_def)
  from Cons.IH[OF this] Cons.prems show ?case
    by (auto simp: fileLines_Cons WriteString_def fun_eq_iff)
qed

lemma writeLines_rest:
  "createFails (writeLines string6 w name ps) = createFails w \<and>
   commandFails (writeLines string6 w name ps) = commandFails w \<and>
   commands (writeLines string6 w name ps) = commands w \<and>
   logs (writeLines string6 w name ps) = logs w"
  by (induction ps arbitrary: w) (simp_all add: WriteString_def)

lemma writePrefixesToFileV4_files:
  assumes "ps \<noteq> []" and "\<not> createFails w f"
  shows "files (snd (writePrefixesToFileV4 string6 w ps f)) =
         (files w)(f \<mapsto> fileLines string6 (case sortedPrefixesV4 ps of Inl e \<Rightarrow> [] | Inr out \<Rightarrow> out))"
    and "fst (writePrefixesToFileV4 string6 w ps f) =
         (case sortedPrefixesV4 ps of Inl e \<Rightarrow> Some e | Inr out \<Rightarrow> None)"
  using assms
  by (auto simp: writePrefixesToFileV4_def os_Create_def logMsg_def writeLines_files fileLines_Nil
      split: sum.splits)

lemma writePrefixesToFileV6_files:
  assumes "ps \<noteq> []" and "\<not> createFails w f"
  shows "files (snd (writePrefixesToFileV6 string6 w ps f)) =
         (files w)(f \<mapsto> fileLines string6 (sortedPrefixesV6 ps))"
    and "fst (writePrefixesToFileV6 string6 w ps f) = None"
  using assms
  by (auto simp: writePrefixesToFileV6_def os_Create_def logMsg_def writeLines_files)

lemma writePrefixesToFileV4_empty:
  "writePrefixesToFileV4 string6 w [] f = (None, logMsg LevelInfo ''no prefixes to write'' w)"
  by (simp add: writePrefixesToFileV4_def)

lemma writePrefixesToFileV6_empty:
  "writePrefixesToFileV6 string6 w [] f = (None, logMsg LevelInfo ''no prefixes to write'' w)"
  by (simp add: writePrefixesToFileV6_def)

lemma sortedPrefixesV6_sorted: "sorted_wrt (\<lambda>a b. prefixCompare a b \<le> 0) (sortedPrefixesV6 ps)"
  by (simp add: sortedPrefixesV6_def SortFunc_sorted)

lemma sortedPrefixesV6_mset: "mset (sortedPrefixesV6 ps) = mset ps"
  by (simp add: sortedPrefixesV6_def SortFunc_mset)


lemma logMsg_simps:
  "files (logMsg lv msg w) = files w"
  "createFails (logMsg lv msg w) = createFails w"
  "commandFails (logMsg lv msg w) = commandFails w"
  "commands (logMsg lv msg w) = commands w"
  by (simp_all add: logMsg_def)

lemma writePrefixesToFileV4_other:
  assumes "g \<noteq> f"
  shows "files (snd (writePrefixesToFileV4 string6 w ps f)) g = files w g"
proof (cases "ps = [] \<or> createFails w f")
  case True
  then show ?thesis
    by (auto simp: writePrefixesToFileV4_def os_Create_def logMsg_simps)
next
  case False
  then show ?thesis
    using assms writePrefixesToFileV4_files(1)[of ps w f string6] by simp
qed

lemma writePrefixesToFileV6_other:
  assumes "g \<noteq> f"
  shows "files (snd (writePrefixesToFileV6 string6 w ps f)) g = files w g"
proof (cases "ps = [] \<or> createFails w f")
  case True
  then show ?thesis
    by (auto simp: writePrefixesToFileV6_def os_Create_def logMsg_simps)
next
  case False
  then show ?thesis
    using assms writePrefixesToFileV6_files(1)[of ps w f string6] by simp
qed

lemma retryLoop_files: "files (snd (retryLoop fetchPrefixes i k err w)) = files w"
  by (induction k arbitrary: i err w) (auto simp: logMsg_simps split: sum.splits)

lemma retryLoop_fst:
  "fst (retryLoop fetchPrefixes i k err w) = fst (retryLoop fetchPrefixes i k err w')"
  by (induction k arbitrary: i err w w') (auto split: sum.splits)

lemma retryLoop_fails:
  "\<forall>j<k. isl (fetchPrefixes (i + j)) \<Longrightarrow> isl (fst (retryLoop fetchPrefixes i k err w))"
proof (induction k arbitrary: i err w)
  case 0
  then show ?case by simp
next
  case (Suc k)
  from Suc.prems have h: "isl (fetchPrefixes i)" by (metis add.right_neutral zero_less_Suc)
  from Suc.prems have "\<forall>j<k. isl (fetchPrefixes (Suc i + j))"
    by (metis Suc_less_eq add_Suc_right add_Suc)
  from Suc.IH[OF this] h show ?case by (auto split: sum.splits)
qed

lemma logIfError_files: "files (logIfError msg r) = files (snd r)"
  by (cases r) (auto simp: logIfError_def logMsg_simps split: option.splits)

lemma outputFiles_differ: "outputFileV4 \<noteq> outputFileV6"
  by (simp add: outputFileV4_def outputFileV6_def)

lemma v6AtPanic_empty: "files (v6AtPanic string6 pr w [] f) = files w"
  by (cases pr) (simp_all add: v6AtPanic_def writePrefixesToFileV6_empty logIfError_def logMsg_simps)





section \<open>Evaluation on concrete input\<close>

lemma itoa_digit: "n < 10 \<Longrightarrow> itoa n = [digitChar n]"
  by (subst itoa.simps) simp

lemma itoa_step: "10 \<le> n \<Longrightarrow> itoa n = itoa (n div 10) @ [digitChar (n mod 10)]"
  by (subst itoa.simps) simp

lemma splitLoop_numeral:
  "splitLoop (numeral k) ipInt =
     (case intToIP ipInt of
        Inl e \<Rightarrow> Inl e
      | Inr ip \<Rightarrow>
          (case splitLoop (pred_numeral k) (incrementIPBy24 ipInt) of
             Inl e \<Rightarrow> Inl e
           | Inr splitPrefixes \<Rightarrow> Inr (PrefixFrom ip 24 # splitPrefixes)))"
  by (simp add: numeral_eq_Suc)

lemmas split_eval = sortedPrefixesV4_def processPrefixTo24_def shiftLeft1_def splitLoop_numeral
  intToIP_def incrementIPBy24_def PrefixFrom_def

lemmas text_eval = itoa_digit itoa_step digitChar_def string4_def Prefix_String_def IsValid_def
  fileLines_def

lemmas sort_eval = sortedPrefixesV6_def slices_SortFunc_def prefixCompare_def cmp_Compare_def
  Addr_Compare_def

lemma emptyWorld_simps:
  "files emptyWorld = (\<lambda>name. None)" "createFails emptyWorld = (\<lambda>name. False)"
  "commandFails emptyWorld = (\<lambda>argv. False)" "commands emptyWorld = []" "logs emptyWorld = []"
  by (simp_all add: emptyWorld_def)

section \<open>The order of the lines\<close>




section \<open>Files that are not touched\<close>

text \<open>
  Claim C10. With an empty list either writer returns no error and leaves every file as it
  was. When all attempts of the fetch fail, \<open>startFetchPrefixes\<close> leaves every file as it was.
  When the fetch succeeds and the filter leaves no block of a family, that family's file is as
  it was after \<open>startFetchPrefixes\<close>, also when the other family's writer panics and wherever
  the goroutines then are.
\<close>

theorem empty_input_and_failed_fetch_touch_no_file:
  "files (snd (writePrefixesToFileV4 string6 w [] f)) = files w \<and>
   fst (writePrefixesToFileV4 string6 w [] f) = None \<and>
   files (snd (writePrefixesToFileV6 string6 w [] f)) = files w \<and>
   fst (writePrefixesToFileV6 string6 w [] f) = None \<and>
   ((\<forall>i<retries. isl (fetchPrefixes i)) \<longrightarrow>
      files (snd (startFetchPrefixes string6 fetchPrefixes asns pr w)) = files w) \<and>
   (fst (fetchPrefixesWithRetry fetchPrefixes retries w) = Inr prefixes \<and>
    fst (filterPrefixesByASN prefixes asns) = [] \<longrightarrow>
      files (snd (startFetchPrefixes string6 fetchPrefixes asns pr w)) outputFileV4 = files w outputFileV4) \<and>
   (fst (fetchPrefixesWithRetry fetchPrefixes retries w) = Inr prefixes \<and>
    snd (filterPrefixesByASN prefixes asns) = [] \<longrightarrow>
      files (snd (startFetchPrefixes string6 fetchPrefixes asns pr w)) outputFileV6 = files w outputFileV6)"
proof -
  let ?w0 = "logMsg LevelInfo ''starting processing for ASNs'' w"
  have ind: "fst (fetchPrefixesWithRetry fetchPrefixes retries w) =
             fst (fetchPrefixesWithRetry fetchPrefixes retries ?w0)"
    unfolding fetchPrefixesWithRetry_def by (rule retryLoop_fst)
  have fw: "files (snd (fetchPrefixesWithRetry fetchPrefixes retries ?w0)) = files w"
    by (simp add: fetchPrefixesWithRetry_def retryLoop_files logMsg_simps)
  have a: "files (snd (startFetchPrefixes string6 fetchPrefixes asns pr w)) = files w"
    if "\<forall>i<retries. isl (fetchPrefixes i)"
  proof -
    have "isl (fst (fetchPrefixesWithRetry fetchPrefixes retries ?w0))"
      using that retryLoop_fails[of retries fetchPrefixes 0] by (simp add: fetchPrefixesWithRetry_def)
    then show ?thesis using fw
      by (cases "fetchPrefixesWithRetry fetchPrefixes retries ?w0")
         (auto simp: startFetchPrefixes_def logMsg_simps isl_def)
  qed
  have b: "files (snd (startFetchPrefixes string6 fetchPrefixes asns pr w)) outputFileV4 = files w outputFileV4"
    if "fst (fetchPrefixesWithRetry fetchPrefixes retries w) = Inr prefixes"
      and "fst (filterPrefixesByASN prefixes asns) = []"
    using that fw ind writePrefixesToFileV6_other[OF outputFiles_differ]
    by (cases "fetchPrefixesWithRetry fetchPrefixes retries ?w0"; cases "filterPrefixesByASN prefixes asns")
       (auto simp: startFetchPrefixes_def writePrefixesToFileV4_empty logMsg_simps logIfError_files Let_def)
  have c: "files (snd (startFetchPrefixes string6 fetchPrefixes asns pr w)) outputFileV6 = files w outputFileV6"
    if "fst (fetchPrefixesWithRetry fetchPrefixes retries w) = Inr prefixes"
      and "snd (filterPrefixesByASN prefixes asns) = []"
    using that fw ind writePrefixesToFileV4_other[OF outputFiles_differ[symmetric]]
    by (cases "fetchPrefixesWithRetry fetchPrefixes retries ?w0"; cases "filterPrefixesByASN prefixes asns")
       (auto simp: startFetchPrefixes_def writePrefixesToFileV6_empty logMsg_simps logIfError_files Let_def
             case_prod_beta v6AtPanic_empty)
  show ?thesis
    using a b c by (simp add: writePrefixesToFileV4_empty writePrefixesToFileV6_empty logMsg_simps)
qed

text \<open>
  A fetch that fails three times; feeds with one family only; and a feed whose only block is
  an IPv4 /25, on which the IPv4 writer panics, with each state of the IPv6 goroutine.
\<close>

theorem empty_input_and_failed_fetch_touch_no_file_witness:
  "files (snd (startFetchPrefixes (\<lambda>a. []) (\<lambda>i. Inl FetchFailed) [64500] NotStarted emptyWorld)) =
     files emptyWorld \<and>
   files (snd (startFetchPrefixes (\<lambda>a. [])
            (\<lambda>i. Inr [\<lparr>CIDR = PrefixOf (IPv4 0xC6336400) 23, ASN = 64500\<rparr>]) [64500] NotStarted emptyWorld))
     outputFileV6 = files emptyWorld outputFileV6 \<and>
   files (snd (startFetchPrefixes (\<lambda>a. [])
            (\<lambda>i. Inr [\<lparr>CIDR = PrefixOf (IPv6 0x20010DB8000000000000000000000000) 32, ASN = 64500\<rparr>])
            [64500] NotStarted emptyWorld))
     outputFileV4 = files emptyWorld outputFileV4 \<and>
   files (snd (startFetchPrefixes (\<lambda>a. [])
            (\<lambda>i. Inr [\<lparr>CIDR = PrefixOf (IPv4 0xC0000280) 25, ASN = 64500\<rparr>]) [64500] (Created 4096)
            emptyWorld))
     outputFileV6 = files emptyWorld outputFileV6 \<and>
   files (snd (startFetchPrefixes (\<lambda>a. [])
            (\<lambda>i. Inr [\<lparr>CIDR = PrefixOf (IPv4 0xC0000280) 25, ASN = 64500\<rparr>]) [64500] Returned emptyWorld))
     outputFileV6 = files emptyWorld outputFileV6"
proof -
  note a = empty_input_and_failed_fetch_touch_no_file[of "\<lambda>a. []" emptyWorld outputFileV4
      "\<lambda>i. Inl FetchFailed" "[64500]" NotStarted "[]"]
  note b = empty_input_and_failed_fetch_touch_no_file[of "\<lambda>a. []" emptyWorld outputFileV4
      "\<lambda>i. Inr [\<lparr>CIDR = PrefixOf (IPv4 0xC6336400) 23, ASN = 64500\<rparr>]" "[64500]" NotStarted
      "[\<lparr>CIDR = PrefixOf (IPv4 0xC6336400) 23, ASN = 64500\<rparr>]"]
  note c = empty_input_and_failed_fetch_touch_no_file[of "\<lambda>a. []" emptyWorld outputFileV4
      "\<lambda>i. Inr [\<lparr>CIDR = PrefixOf (IPv6 0x20010DB8000000000000000000000000) 32, ASN = 64500\<rparr>]"
      "[64500]" NotStarted "[\<lparr>CIDR = PrefixOf (IPv6 0x20010DB8000000000000000000000000) 32, ASN = 64500\<rparr>]"]
  note d = empty_input_and_failed_fetch_touch_no_file[of "\<lambda>a. []" emptyWorld outputFileV4
      "\<lambda>i. Inr [\<lparr>CIDR = PrefixOf (IPv4 0xC0000280) 25, ASN = 64500\<rparr>]" "[64500]" "Created 4096"
      "[\<lparr>CIDR = PrefixOf (IPv4 0xC0000280) 25, ASN = 64500\<rparr>]"]
  note e = empty_input_and_failed_fetch_touch_no_file[of "\<lambda>a. []" emptyWorld outputFileV4
      "\<lambda>i. Inr [\<lparr>CIDR = PrefixOf (IPv4 0xC0000280) 25, ASN = 64500\<rparr>]" "[64500]" Returned
      "[\<lparr>CIDR = PrefixOf (IPv4 0xC0000280) 25, ASN = 64500\<rparr>]"]
  have r: "retries = Suc (Suc (Suc 0))" by (simp add: retries_def)
  from a b c d e show ?thesis
    by (simp add: fetchPrefixesWithRetry_def r filterPrefixesByASN_def)
qed

section \<open>Normalizing twice\<close>

lemma writePrefixesToFileV4_env:
  "createFails (snd (writePrefixesToFileV4 string6 w ps f)) = createFails w"
  by (auto simp: writePrefixesToFileV4_def os_Create_def logMsg_simps writeLines_rest
      split: sum.splits)

lemma writePrefixesToFileV6_env:
  "createFails (snd (writePrefixesToFileV6 string6 w ps f)) = createFails w"
  by (auto simp: writePrefixesToFileV6_def os_Create_def logMsg_simps writeLines_rest)

lemma sortedPrefixesV4_Nil: "sortedPrefixesV4 [] = Inr []"
  by (simp add: sortedPrefixesV4_def slices_SortFunc_def)

lemma sortedPrefixesV4_idem: "sortedPrefixesV4 ps = Inr out \<Longrightarrow> sortedPrefixesV4 out = Inr out"
  using sortedPrefixesV4_props[of ps out] by (simp add: sortedPrefixesV4_fixed)

lemma sortedPrefixesV6_fixed:
  "sorted_wrt (\<lambda>a b. prefixCompare a b \<le> 0) xs \<Longrightarrow> sortedPrefixesV6 xs = xs"
  by (simp add: sortedPrefixesV6_def sorted_wrt_le_key SortFunc_sorted_id)

lemma sortedPrefixesV6_idem: "sortedPrefixesV6 (sortedPrefixesV6 ps) = sortedPrefixesV6 ps"
  by (rule sortedPrefixesV6_fixed) (rule sortedPrefixesV6_sorted)

lemma sortedPrefixesV4_nonempty: "sortedPrefixesV4 ps = Inr [] \<Longrightarrow> ps = []"
proof (rule ccontr)
  assume a: "sortedPrefixesV4 ps = Inr []" and n: "ps \<noteq> []"
  then obtain p where p: "p \<in> set ps" by (cases ps) auto
  from a obtain r where r: "uniquePrefixesLoop [] ps = Inr r" and e: "slices_SortFunc r prefixCompare = []"
    by (auto simp: sortedPrefixesV4_def split: sum.splits)
  from e have re: "set r = {}" using SortFunc_set[of r] by simp
  from r p obtain s where s: "processPrefixTo24 p = Inr s"
    using uniquePrefixesLoop_succeeds[of "[]" ps] by auto
  have "s \<noteq> []"
  proof -
    have "splitLoop k i = Inr s' \<Longrightarrow> 0 < k \<Longrightarrow> s' \<noteq> []" for k i s'
      by (cases k) (auto split: sum.splits)
    then show ?thesis using s
      by (auto simp: processPrefixTo24_def Let_def shiftLeft1_def split: if_splits)
  qed
  then obtain q where q: "q \<in> set s" by (cases s) auto
  have "q \<in> set r" using uniquePrefixesLoop_set[OF r] p s q by blast
  with re show False by simp
qed

text \<open>
  Claim C8. A list the IPv4 set-and-sort returns is returned unchanged when it is given as
  input, and so is every list of blocks of length 24 that is strictly ascending under
  \<open>prefixCompare\<close>; writing it again to the file the writer has just written does not change
  the file. The IPv6 sort returns a sorted list unchanged, and writing its result again does
  not change the file.
\<close>

theorem normalization_idempotent:
  "(sortedPrefixesV4 ps = Inr out \<longrightarrow> sortedPrefixesV4 out = Inr out) \<and>
   ((\<forall>q\<in>set xs. Bits q = 24) \<and> sorted_wrt (\<lambda>a b. prefixCompare a b < 0) xs \<longrightarrow>
      sortedPrefixesV4 xs = Inr xs) \<and>
   (sortedPrefixesV4 ps = Inr out \<and> \<not> createFails w f \<longrightarrow>
      files (snd (writePrefixesToFileV4 string6 (snd (writePrefixesToFileV4 string6 w ps f)) out f)) =
      files (snd (writePrefixesToFileV4 string6 w ps f))) \<and>
   sortedPrefixesV6 (sortedPrefixesV6 ps) = sortedPrefixesV6 ps \<and>
   (sorted_wrt (\<lambda>a b. prefixCompare a b \<le> 0) xs \<longrightarrow> sortedPrefixesV6 xs = xs) \<and>
   (\<not> createFails w f \<longrightarrow>
      files (snd (writePrefixesToFileV6 string6 (snd (writePrefixesToFileV6 string6 w ps f))
                   (sortedPrefixesV6 ps) f)) =
      files (snd (writePrefixesToFileV6 string6 w ps f)))"
proof (intro conjI impI)
  assume "sortedPrefixesV4 ps = Inr out"
  then show "sortedPrefixesV4 out = Inr out" by (rule sortedPrefixesV4_idem)
next
  assume "(\<forall>q\<in>set xs. Bits q = 24) \<and> sorted_wrt (\<lambda>a b. prefixCompare a b < 0) xs"
  then show "sortedPrefixesV4 xs = Inr xs"
    by (simp add: sorted_wrt_less_key sortedPrefixesV4_fixed)
next
  assume h: "sortedPrefixesV4 ps = Inr out \<and> \<not> createFails w f"
  let ?w1 = "snd (writePrefixesToFileV4 string6 w ps f)"
  show "files (snd (writePrefixesToFileV4 string6 ?w1 out f)) = files ?w1"
  proof (cases "ps = []")
    case True
    with h have "out = []" by (simp add: sortedPrefixesV4_Nil)
    then show ?thesis by (simp add: writePrefixesToFileV4_empty logMsg_simps)
  next
    case False
    with h have o: "out \<noteq> []" using sortedPrefixesV4_nonempty by auto
    have c: "\<not> createFails ?w1 f" using h by (simp add: writePrefixesToFileV4_env)
    have i: "sortedPrefixesV4 out = Inr out" by (rule h[THEN conjunct1, THEN sortedPrefixesV4_idem])
    from writePrefixesToFileV4_files(1)[OF o c, of string6] writePrefixesToFileV4_files(1)[OF False, of w f string6]
      h i show ?thesis by simp
  qed
next
  show "sortedPrefixesV6 (sortedPrefixesV6 ps) = sortedPrefixesV6 ps" by (rule sortedPrefixesV6_idem)
next
  assume "sorted_wrt (\<lambda>a b. prefixCompare a b \<le> 0) xs"
  then show "sortedPrefixesV6 xs = xs" by (rule sortedPrefixesV6_fixed)
next
  assume h: "\<not> createFails w f"
  let ?w1 = "snd (writePrefixesToFileV6 string6 w ps f)"
  show "files (snd (writePrefixesToFileV6 string6 ?w1 (sortedPrefixesV6 ps) f)) = files ?w1"
  proof (cases "ps = []")
    case True
    then show ?thesis
      by (simp add: sortedPrefixesV6_def slices_SortFunc_def writePrefixesToFileV6_empty logMsg_simps)
  next
    case False
    then have o: "sortedPrefixesV6 ps \<noteq> []"
      using sortedPrefixesV6_mset[of ps] by (metis mset_zero_iff)
    have c: "\<not> createFails ?w1 f" using h by (simp add: writePrefixesToFileV6_env)
    from writePrefixesToFileV6_files(1)[OF o c, of string6] writePrefixesToFileV6_files(1)[OF False h, of string6]
    show ?thesis by (simp add: sortedPrefixesV6_idem)
  qed
qed

text \<open>The two /24 blocks of 198.51.100.0/23, and two IPv6 blocks, written a second time.\<close>

theorem normalization_idempotent_witness:
  "sortedPrefixesV4 [PrefixOf (IPv4 0xC6336400) 23] =
     Inr [PrefixOf (IPv4 0xC6336400) 24, PrefixOf (IPv4 0xC6336500) 24] \<and>
   sortedPrefixesV4 [PrefixOf (IPv4 0xC6336400) 24, PrefixOf (IPv4 0xC6336500) 24] =
     Inr [PrefixOf (IPv4 0xC6336400) 24, PrefixOf (IPv4 0xC6336500) 24] \<and>
   sortedPrefixesV6 [PrefixOf (IPv6 0x20010DB8000000000000000000000000) 32,
                     PrefixOf (IPv6 0x20010DB8000000000000000000000000) 48] =
     [PrefixOf (IPv6 0x20010DB8000000000000000000000000) 32,
      PrefixOf (IPv6 0x20010DB8000000000000000000000000) 48] \<and>
   files (snd (writePrefixesToFileV4 (\<lambda>a. [])
            (snd (writePrefixesToFileV4 (\<lambda>a. []) emptyWorld [PrefixOf (IPv4 0xC6336400) 23] outputFileV4))
            [PrefixOf (IPv4 0xC6336400) 24, PrefixOf (IPv4 0xC6336500) 24] outputFileV4)) =
   files (snd (writePrefixesToFileV4 (\<lambda>a. []) emptyWorld [PrefixOf (IPv4 0xC6336400) 23] outputFileV4)) \<and>
   files (snd (writePrefixesToFileV6 (\<lambda>a. ''2001:db8::'')
            (snd (writePrefixesToFileV6 (\<lambda>a. ''2001:db8::'') emptyWorld
                   [PrefixOf (IPv6 0x20010DB8000000000000000000000000) 48,
                    PrefixOf (IPv6 0x20010DB8000000000000000000000000) 32] outputFileV6))
            [PrefixOf (IPv6 0x20010DB8000000000000000000000000) 32,
             PrefixOf (IPv6 0x20010DB8000000000000000000000000) 48] outputFileV6)) =
   files (snd (writePrefixesToFileV6 (\<lambda>a. ''2001:db8::'') emptyWorld
                   [PrefixOf (IPv6 0x20010DB8000000000000000000000000) 48,
                    PrefixOf (IPv6 0x20010DB8000000000000000000000000) 32] outputFileV6))"
proof -
  let ?ps = "[PrefixOf (IPv4 0xC6336400) 23]"
  let ?out = "[PrefixOf (IPv4 0xC6336400) 24, PrefixOf (IPv4 0xC6336500) 24]"
  let ?qs = "[PrefixOf (IPv6 0x20010DB8000000000000000000000000) 48,
              PrefixOf (IPv6 0x20010DB8000000000000000000000000) 32]"
  let ?v6 = "[PrefixOf (IPv6 0x20010DB8000000000000000000000000) 32,
              PrefixOf (IPv6 0x20010DB8000000000000000000000000) 48]"
  have e: "sortedPrefixesV4 ?ps = Inr ?out"
    by (simp add: split_eval sort_eval)
  have s4: "(\<forall>q\<in>set ?out. Bits q = 24) \<and> sorted_wrt (\<lambda>a b. prefixCompare a b < 0) ?out"
    by (simp add: sort_eval)
  have s6: "sorted_wrt (\<lambda>a b. prefixCompare a b \<le> 0) ?v6"
    by (simp add: sort_eval)
  have q: "sortedPrefixesV6 ?qs = ?v6"
    by (simp add: sort_eval)
  have c4: "sortedPrefixesV4 ?ps = Inr ?out \<and> \<not> createFails emptyWorld outputFileV4"
    using e by (simp add: emptyWorld_simps)
  have c6: "\<not> createFails emptyWorld outputFileV6"
    by (simp add: emptyWorld_simps)
  note t = normalization_idempotent[of ?ps ?out ?out emptyWorld outputFileV4 "\<lambda>a. []"]
  note u = normalization_idempotent[of ?qs "[]" ?v6 emptyWorld outputFileV6 "\<lambda>a. ''2001:db8::''"]
  note i4 = t[THEN conjunct1, THEN mp, OF e]
  note f4 = t[THEN conjunct2, THEN conjunct1, THEN mp, OF s4]
  note w4 = t[THEN conjunct2, THEN conjunct2, THEN conjunct1, THEN mp, OF c4]
  note f6 = u[THEN conjunct2, THEN conjunct2, THEN conjunct2, THEN conjunct2, THEN conjunct1, THEN mp, OF s6]
  note w6 = u[THEN conjunct2, THEN conjunct2, THEN conjunct2, THEN conjunct2, THEN conjunct2, THEN mp, OF c6]
  from e i4 f4 w4 f6 w6[unfolded q] show ?thesis by simp
qed

section \<open>Blocks longer than /24\<close>

text \<open>
  Claim C2 says that an IPv4 block longer than /24 is kept as it is. For 192.0.2.128/25 the
  shift count \<open>24 - 25\<close> is negative and \<open>processPrefixTo24\<close> panics: the writer has created
  its file and leaves it empty, and \<open>startFetchPrefixes\<close> ends with the panic, wherever the
  IPv6 goroutine then is.
\<close>

theorem processPrefixTo24_longer_than_24_panics:
  "processPrefixTo24 (PrefixOf (IPv4 0xC0000280) 25) = Inl NegativeShift \<and>
   writePrefixesToFileV4 string6 emptyWorld [PrefixOf (IPv4 0xC0000280) 25] outputFileV4 =
     (Some NegativeShift, emptyWorld\<lparr>files := (files emptyWorld)(outputFileV4 \<mapsto> [])\<rparr>) \<and>
   fst (startFetchPrefixes string6 (\<lambda>i. Inr [\<lparr>CIDR = PrefixOf (IPv4 0xC0000280) 25, ASN = 64500\<rparr>])
          [64500] pr emptyWorld) = Some NegativeShift"
proof -
  have p: "processPrefixTo24 (PrefixOf (IPv4 0xC0000280) 25) = Inl NegativeShift"
    by (simp add: processPrefixTo24_panics)
  have s: "sortedPrefixesV4 [PrefixOf (IPv4 0xC0000280) 25] = Inl NegativeShift"
    by (simp add: sortedPrefixesV4_def p)
  have w: "writePrefixesToFileV4 string6 w [PrefixOf (IPv4 0xC0000280) 25] outputFileV4 =
     (Some NegativeShift, w\<lparr>files := (files w)(outputFileV4 \<mapsto> [])\<rparr>)" if "\<not> createFails w outputFileV4" for w
    using that by (simp add: writePrefixesToFileV4_def os_Create_def s)
  have r: "retries = Suc (Suc (Suc 0))" by (simp add: retries_def)
  show ?thesis
    by (simp add: p w emptyWorld_simps startFetchPrefixes_def fetchPrefixesWithRetry_def r
        filterPrefixesByASN_def logMsg_simps)
qed

text \<open>
  The IPv6 goroutine runs beside the one that panics. With an IPv6 block in the same feed, the
  IPv6 file is absent, holds the first bytes of the line, or holds the line, as far as that
  goroutine has come when the process ends.
\<close>

lemma ipv6_file_when_ipv4_writer_panics:
  "files (snd (startFetchPrefixes string6
          (\<lambda>i. Inr [\<lparr>CIDR = PrefixOf (IPv4 0xC0000280) 25, ASN = 64500\<rparr>,
                    \<lparr>CIDR = PrefixOf (IPv6 0x20010DB8000000000000000000000000) 32, ASN = 64500\<rparr>])
          [64500] pr emptyWorld)) outputFileV6 =
     (case pr of
        NotStarted \<Rightarrow> None
      | Created k \<Rightarrow> Some (take k (Prefix_String string6 (PrefixOf (IPv6 0x20010DB8000000000000000000000000) 32) @ NL))
      | Returned \<Rightarrow> Some (Prefix_String string6 (PrefixOf (IPv6 0x20010DB8000000000000000000000000) 32) @ NL))"
proof -
  let ?p6 = "PrefixOf (IPv6 0x20010DB8000000000000000000000000) 32"
  have p: "processPrefixTo24 (PrefixOf (IPv4 0xC0000280) 25) = Inl NegativeShift"
    by (simp add: processPrefixTo24_panics)
  have s: "sortedPrefixesV4 [PrefixOf (IPv4 0xC0000280) 25] = Inl NegativeShift"
    by (simp add: sortedPrefixesV4_def p)
  have w: "writePrefixesToFileV4 string6 w [PrefixOf (IPv4 0xC0000280) 25] outputFileV4 =
     (Some NegativeShift, w\<lparr>files := (files w)(outputFileV4 \<mapsto> [])\<rparr>)" if "\<not> createFails w outputFileV4" for w
    using that by (simp add: writePrefixesToFileV4_def os_Create_def s)
  have r: "retries = Suc (Suc (Suc 0))" by (simp add: retries_def)
  have s6: "sortedPrefixesV6 [?p6] = [?p6]" by (simp add: sort_eval)
  have f: "filterPrefixesByASN [\<lparr>CIDR = PrefixOf (IPv4 0xC0000280) 25, ASN = 64500\<rparr>,
                    \<lparr>CIDR = ?p6, ASN = 64500\<rparr>] [64500] = ([PrefixOf (IPv4 0xC0000280) 25], [?p6])"
    by (simp add: filterPrefixesByASN_def)
  let ?w2 = "(logMsg LevelInfo ''starting processing for ASNs'' emptyWorld)\<lparr>files :=
               (files (logMsg LevelInfo ''starting processing for ASNs'' emptyWorld))(outputFileV4 \<mapsto> [])\<rparr>"
  have e: "snd (startFetchPrefixes string6
          (\<lambda>i. Inr [\<lparr>CIDR = PrefixOf (IPv4 0xC0000280) 25, ASN = 64500\<rparr>, \<lparr>CIDR = ?p6, ASN = 64500\<rparr>])
          [64500] pr emptyWorld) = v6AtPanic string6 pr ?w2 [?p6] outputFileV6"
    by (simp add: w f emptyWorld_simps startFetchPrefixes_def fetchPrefixesWithRetry_def r logMsg_simps)
  have c: "\<not> createFails ?w2 outputFileV6" by (simp add: logMsg_simps emptyWorld_simps)
  show ?thesis
    unfolding e using c outputFiles_differ
    by (cases pr)
       (simp_all add: s6 emptyWorld_simps logMsg_simps v6AtPanic_def os_Create_def WriteString_def
          writePrefixesToFileV6_def logIfError_def writeLines_files fileLines_def)
qed

section \<open>IPv6 blocks\<close>

text \<open>
  Claim C4, as amended. The IPv6 writer does not decompose and does not remove duplicates. The
  list it writes has the blocks of the input, each unchanged and as often as in the input, and
  so as many blocks as the input; it is ascending under \<open>prefixCompare\<close>, that is by bit length
  of the family, then prefix length, then address; it has no block twice exactly when the input
  has none twice. For a non-empty input and a file that can be created, the writer returns no
  error and the file holds the lines of this list and nothing else.
\<close>

theorem v6_blocks_sorted_with_multiplicity:
  "mset (sortedPrefixesV6 ps) = mset ps \<and>
   count_list (sortedPrefixesV6 ps) p = count_list ps p \<and>
   length (sortedPrefixesV6 ps) = length ps \<and>
   sorted_wrt (\<lambda>a b. prefixCompare a b \<le> 0) (sortedPrefixesV6 ps) \<and>
   sorted (map sortKey (sortedPrefixesV6 ps)) \<and>
   (distinct (sortedPrefixesV6 ps) \<longleftrightarrow> distinct ps) \<and>
   (ps \<noteq> [] \<and> \<not> createFails w f \<longrightarrow>
      fst (writePrefixesToFileV6 string6 w ps f) = None \<and>
      files (snd (writePrefixesToFileV6 string6 w ps f)) f =
        Some (fileLines string6 (sortedPrefixesV6 ps)))"
proof (intro conjI impI)
  show m: "mset (sortedPrefixesV6 ps) = mset ps" by (rule sortedPrefixesV6_mset)
  show "count_list (sortedPrefixesV6 ps) p = count_list ps p"
    using arg_cong[OF m, of "\<lambda>M. count M p"] by (simp only: count_mset)
  show "length (sortedPrefixesV6 ps) = length ps"
    using arg_cong[OF m, of size] by (simp only: size_mset)
  show s: "sorted_wrt (\<lambda>a b. prefixCompare a b \<le> 0) (sortedPrefixesV6 ps)"
    by (rule sortedPrefixesV6_sorted)
  show "sorted (map sortKey (sortedPrefixesV6 ps))"
    using s by (simp only: sorted_wrt_le_key)
  show "distinct (sortedPrefixesV6 ps) \<longleftrightarrow> distinct ps"
    by (simp add: sortedPrefixesV6_def SortFunc_distinct)
next
  assume h: "ps \<noteq> [] \<and> \<not> createFails w f"
  then show "fst (writePrefixesToFileV6 string6 w ps f) = None"
    by (simp add: writePrefixesToFileV6_files(2))
  from h show "files (snd (writePrefixesToFileV6 string6 w ps f)) f =
        Some (fileLines string6 (sortedPrefixesV6 ps))"
    by (simp add: writePrefixesToFileV6_files(1))
qed

text \<open>
  Three blocks arrive, the first and the last equal and greater than the second, and the file
  holds an older line. The file then holds three lines in ascending order, the repeated block
  twice, and the older line is gone.
\<close>

theorem v6_blocks_sorted_with_multiplicity_witness:
  "sortedPrefixesV6 [PrefixOf (IPv6 0x20010DB8000100000000000000000000) 48,
                     PrefixOf (IPv6 0x20010DB8000000000000000000000000) 32,
                     PrefixOf (IPv6 0x20010DB8000100000000000000000000) 48] =
     [PrefixOf (IPv6 0x20010DB8000000000000000000000000) 32,
      PrefixOf (IPv6 0x20010DB8000100000000000000000000) 48,
      PrefixOf (IPv6 0x20010DB8000100000000000000000000) 48] \<and>
   count_list (sortedPrefixesV6 [PrefixOf (IPv6 0x20010DB8000100000000000000000000) 48,
                     PrefixOf (IPv6 0x20010DB8000000000000000000000000) 32,
                     PrefixOf (IPv6 0x20010DB8000100000000000000000000) 48])
     (PrefixOf (IPv6 0x20010DB8000100000000000000000000) 48) = 2 \<and>
   sorted (map sortKey (sortedPrefixesV6 [PrefixOf (IPv6 0x20010DB8000100000000000000000000) 48,
                     PrefixOf (IPv6 0x20010DB8000000000000000000000000) 32,
                     PrefixOf (IPv6 0x20010DB8000100000000000000000000) 48])) \<and>
   files (snd (writePrefixesToFileV6
            (\<lambda>a. if a = 0x20010DB8000000000000000000000000 then ''2001:db8::'' else ''2001:db8:1::'')
            (emptyWorld\<lparr>files := [outputFileV6 \<mapsto> ''2001:db8:ffff::/48'' @ NL]\<rparr>)
            [PrefixOf (IPv6 0x20010DB8000100000000000000000000) 48,
             PrefixOf (IPv6 0x20010DB8000000000000000000000000) 32,
             PrefixOf (IPv6 0x20010DB8000100000000000000000000) 48] outputFileV6)) outputFileV6 =
     Some (''2001:db8::/32'' @ NL @ ''2001:db8:1::/48'' @ NL @ ''2001:db8:1::/48'' @ NL)"
proof -
  let ?p0 = "PrefixOf (IPv6 0x20010DB8000000000000000000000000) 32"
  let ?p1 = "PrefixOf (IPv6 0x20010DB8000100000000000000000000) 48"
  let ?ps = "[?p1, ?p0, ?p1]"
  let ?s6 = "\<lambda>a::128 word. if a = 0x20010DB8000000000000000000000000 then ''2001:db8::'' else ''2001:db8:1::''"
  let ?w = "emptyWorld\<lparr>files := [outputFileV6 \<mapsto> ''2001:db8:ffff::/48'' @ NL]\<rparr>"
  note t = v6_blocks_sorted_with_multiplicity[of ?ps ?p1 ?w outputFileV6 ?s6]
  have h: "?ps \<noteq> [] \<and> \<not> createFails ?w outputFileV6" by (simp add: emptyWorld_simps)
  have s: "sortedPrefixesV6 ?ps = [?p0, ?p1, ?p1]" by (simp add: sort_eval)
  have c: "count_list (sortedPrefixesV6 ?ps) ?p1 = 2"
    using t[THEN conjunct2, THEN conjunct1] by simp
  have k: "sorted (map sortKey (sortedPrefixesV6 ?ps))"
    by (rule t[THEN conjunct2, THEN conjunct2, THEN conjunct2, THEN conjunct2, THEN conjunct1])
  have f: "files (snd (writePrefixesToFileV6 ?s6 ?w ?ps outputFileV6)) outputFileV6 =
           Some (fileLines ?s6 (sortedPrefixesV6 ?ps))"
    by (rule t[THEN conjunct2, THEN conjunct2, THEN conjunct2, THEN conjunct2, THEN conjunct2,
               THEN conjunct2, THEN mp, OF h, THEN conjunct2])
  have l: "fileLines ?s6 [?p0, ?p1, ?p1] =
           ''2001:db8::/32'' @ NL @ ''2001:db8:1::/48'' @ NL @ ''2001:db8:1::/48'' @ NL"
    by (simp add: text_eval)
  from s c k f l show ?thesis by (simp only:)
qed

text \<open>
  Claim C4 as stated fails: of three blocks of which the first and the last are equal, all
  three are written, the repeated one twice.
\<close>

theorem v6_duplicate_block_kept:
  "sortedPrefixesV6 [PrefixOf (IPv6 0x20010DB8000000000000000000000000) 32,
                     PrefixOf (IPv6 0x20010DB8000100000000000000000000) 48,
                     PrefixOf (IPv6 0x20010DB8000000000000000000000000) 32] =
     [PrefixOf (IPv6 0x20010DB8000000000000000000000000) 32,
      PrefixOf (IPv6 0x20010DB8000000000000000000000000) 32,
      PrefixOf (IPv6 0x20010DB8000100000000000000000000) 48] \<and>
   count_list (sortedPrefixesV6 [PrefixOf (IPv6 0x20010DB8000000000000000000000000) 32,
                     PrefixOf (IPv6 0x20010DB8000100000000000000000000) 48,
                     PrefixOf (IPv6 0x20010DB8000000000000000000000000) 32])
     (PrefixOf (IPv6 0x20010DB8000000000000000000000000) 32) = 2"
  by (simp add: sort_eval)


section \<open>The setup phase: what each step reads and leaves\<close>

lemma logMsg_logs: "logs (logMsg lv msg w) = logs w @ [(lv, msg)]"
  by (simp add: logMsg_def)

lemma scanPort_frame:
  "files (snd (scanPort ls w)) = files w \<and> createFails (snd (scanPort ls w)) = createFails w \<and>
   commandFails (snd (scanPort ls w)) = commandFails w \<and> commands (snd (scanPort ls w)) = commands w"
  by (induction ls arbitrary: w) (auto simp: logMsg_simps split: option.splits)

lemma scanPort_first:
  "fst (scanPort ls w) =
     (case List.map_filter portOfLine ls of [] \<Rightarrow> Inl PortNotFound | m # rest \<Rightarrow> Inr (of_nat m))"
  by (induction ls arbitrary: w) (auto simp: List.map_filter_simps portOfLine_def split: option.splits)

lemma findSSHPort_frame:
  "files (snd (findSSHPort w)) = files w \<and> createFails (snd (findSSHPort w)) = createFails w \<and>
   commandFails (snd (findSSHPort w)) = commandFails w \<and> commands (snd (findSSHPort w)) = commands w"
  by (auto simp: findSSHPort_def Let_def os_Open_def logMsg_simps scanPort_frame split: option.splits)

lemma findSSHPort_first:
  "fst (findSSHPort w) =
     (case files w sshdConfigPath of
        None \<Rightarrow> Inl (Wrapped ''could not open sshd configuration'' (OpenFailed sshdConfigPath))
      | Some conf \<Rightarrow>
          (case List.map_filter portOfLine (ScanLines conf) of
             [] \<Rightarrow> Inl PortNotFound
           | m # rest \<Rightarrow> Inr (of_nat m)))"
  by (auto simp: findSSHPort_def Let_def os_Open_def logMsg_simps scanPort_first split: option.splits)

text \<open>
  The lines \<open>ScanLines\<close> yields: every line that ends with a line feed within
  \<open>MaxScanTokenSize\<close> bytes, up to the first line that does not.
\<close>

lemma scanFrom_line:
  "CHR 0x0A \<notin> set l \<Longrightarrow> length cur + length l < MaxScanTokenSize \<Longrightarrow>
   scanFrom cur (l @ CHR 0x0A # rest) = dropCR (cur @ l) # scanFrom [] rest"
  by (induction l arbitrary: cur) auto

lemma scanFrom_long:
  "CHR 0x0A \<notin> set long \<Longrightarrow> MaxScanTokenSize \<le> length cur + length long \<Longrightarrow>
   length cur < MaxScanTokenSize \<Longrightarrow> scanFrom cur (long @ rest) = []"
  by (induction long arbitrary: cur) auto

lemma ScanLines_lines:
  "\<forall>l\<in>set ls. CHR 0x0A \<notin> set l \<and> length l < MaxScanTokenSize \<Longrightarrow>
   ScanLines (concat (map (\<lambda>l. l @ NL) ls) @ rest) = map dropCR ls @ ScanLines rest"
  by (induction ls) (auto simp: ScanLines_def NL_def scanFrom_line)

lemma ScanLines_too_long:
  "CHR 0x0A \<notin> set long \<Longrightarrow> MaxScanTokenSize \<le> length long \<Longrightarrow> ScanLines (long @ rest) = []"
  unfolding ScanLines_def by (rule scanFrom_long) (simp_all add: MaxScanTokenSize_def)

text \<open>The records \<open>findSSHPort\<close> logs, and that the later steps keep them.\<close>

lemma scanPort_logs:
  "logs (snd (scanPort ls w)) =
     logs w @ map (\<lambda>line. (LevelWarn, ''fail to parse Port''))
       (filter (\<lambda>line. FindStringSubmatch line \<noteq> None) (takeWhile (\<lambda>line. portOfLine line = None) ls))"
  by (induction ls arbitrary: w) (auto simp: portOfLine_def logMsg_logs split: option.splits)

lemma findSSHPort_logs:
  "logs (snd (findSSHPort w)) =
     logs w @ (LevelInfo, ''finding SSH port'') #
       (case files w sshdConfigPath of
          None \<Rightarrow> []
        | Some conf \<Rightarrow>
            map (\<lambda>line. (LevelWarn, ''fail to parse Port''))
              (filter (\<lambda>line. FindStringSubmatch line \<noteq> None)
                 (takeWhile (\<lambda>line. portOfLine line = None) (ScanLines conf))))"
  by (auto simp: findSSHPort_def Let_def os_Open_def logMsg_simps logMsg_logs scanPort_logs split: option.splits)

lemma readPrefixes_files: "files w' = files w \<Longrightarrow> readPrefixes P w' f = readPrefixes P w f"
  by (simp add: readPrefixes_def os_Open_def)

lemma readOrEmpty_fst: "files w' = files w \<Longrightarrow> fst (readOrEmpty P w' f) = fst (readOrEmpty P w f)"
  by (auto simp: readOrEmpty_def readPrefixes_files[of w' w] split: sum.splits)

lemma readOrEmpty_frame:
  "files (snd (readOrEmpty P w f)) = files w \<and> createFails (snd (readOrEmpty P w f)) = createFails w \<and>
   commandFails (snd (readOrEmpty P w f)) = commandFails w \<and> commands (snd (readOrEmpty P w f)) = commands w"
  by (auto simp: readOrEmpty_def logMsg_simps split: sum.splits)

lemma readOrEmpty_missing:
  "files w f = None \<or> files w f = Some [] \<Longrightarrow> fst (readOrEmpty P w f) = []"
  by (auto simp: readOrEmpty_def readPrefixes_def os_Open_def ScanLines_def split: sum.splits)

lemma renderNftablesTemplate_total: "\<exists>doc. renderNftablesTemplate string6 port v4 v6 = Inr doc"
  by (simp add: renderNftablesTemplate_def)

lemma contains_base: "\<exists>pre post. m @ r = pre @ m @ post"
  by (rule exI[of _ "[]"]) simp

lemma contains_step: "\<exists>pre post. ys = pre @ m @ post \<Longrightarrow> \<exists>pre post. x @ ys = pre @ m @ post"
proof -
  assume "\<exists>pre post. ys = pre @ m @ post"
  then obtain pre post where "ys = pre @ m @ post" by blast
  then have "x @ ys = (x @ pre) @ m @ post" by simp
  then show ?thesis by blast
qed

lemma renderNftablesTemplate_sshRule:
  "\<exists>pre post. renderNftablesTemplate string6 port v4 v6 = Inr (pre @ sshRule port @ post)"
proof -
  have "\<exists>pre post. projr (renderNftablesTemplate string6 port v4 v6) = pre @ sshRule port @ post"
    unfolding renderNftablesTemplate_def sum.sel
    by (rule contains_base[of "sshRule port"] | rule contains_step[of _ "sshRule port"])+
  then show ?thesis by (auto simp: renderNftablesTemplate_def)
qed

lemma initializeNftablesConf_empty:
  assumes "fst (readOrEmpty P w ipv4File) = []" and "fst (readOrEmpty P w ipv6File) = []"
  shows "fst (initializeNftablesConf string6 P w port) = Some PrefixListsEmpty"
    and "files (snd (initializeNftablesConf string6 P w port)) = files w"
    and "commands (snd (initializeNftablesConf string6 P w port)) = commands w"
proof -
  let ?w0 = "logMsg LevelInfo ''initializing nftables configuration'' w"
  let ?w1 = "snd (readOrEmpty P ?w0 ipv4File)"
  have a: "fst (readOrEmpty P ?w0 ipv4File) = []"
    using assms(1) readOrEmpty_fst[of ?w0 w P ipv4File] by (simp add: logMsg_simps)
  have f1: "files ?w1 = files w" by (simp add: readOrEmpty_frame logMsg_simps)
  have b: "fst (readOrEmpty P ?w1 ipv6File) = []"
    using assms(2) readOrEmpty_fst[OF f1, of P ipv6File] by simp
  have i: "initializeNftablesConf string6 P w port = (Some PrefixListsEmpty, snd (readOrEmpty P ?w1 ipv6File))"
    using a b by (simp add: initializeNftablesConf_def case_prod_beta)
  show "fst (initializeNftablesConf string6 P w port) = Some PrefixListsEmpty" by (simp add: i)
  show "files (snd (initializeNftablesConf string6 P w port)) = files w"
    by (simp add: i readOrEmpty_frame logMsg_simps)
  show "commands (snd (initializeNftablesConf string6 P w port)) = commands w"
    by (simp add: i readOrEmpty_frame logMsg_simps)
qed

lemma initializeNftablesConf_writes:
  assumes "fst (readOrEmpty P w ipv4File) = v4" and "fst (readOrEmpty P w ipv6File) = v6"
    and "v4 \<noteq> [] \<or> v6 \<noteq> []" and "\<not> createFails w nftablesConf"
    and "renderNftablesTemplate string6 port v4 v6 = Inr doc"
  shows "fst (initializeNftablesConf string6 P w port) = None"
    and "files (snd (initializeNftablesConf string6 P w port)) = (files w)(nftablesConf \<mapsto> doc)"
proof -
  let ?w0 = "logMsg LevelInfo ''initializing nftables configuration'' w"
  let ?w1 = "snd (readOrEmpty P ?w0 ipv4File)"
  let ?w2 = "snd (readOrEmpty P ?w1 ipv6File)"
  have a: "fst (readOrEmpty P ?w0 ipv4File) = v4"
    using assms(1) readOrEmpty_fst[of ?w0 w P ipv4File] by (simp add: logMsg_simps)
  have f1: "files ?w1 = files w" by (simp add: readOrEmpty_frame logMsg_simps)
  have b: "fst (readOrEmpty P ?w1 ipv6File) = v6"
    using assms(2) readOrEmpty_fst[OF f1, of P ipv6File] by simp
  have f2: "files ?w2 = files w" "\<not> createFails ?w2 nftablesConf"
    using assms(4) by (simp_all add: readOrEmpty_frame logMsg_simps)
  have i: "initializeNftablesConf string6 P w port =
           (None, WriteString (?w2\<lparr>files := (files ?w2)(nftablesConf \<mapsto> [])\<rparr>) nftablesConf doc)"
    using a b assms(3,5) f2(2)
    by (auto simp: initializeNftablesConf_def case_prod_beta os_Create_def)
  show "fst (initializeNftablesConf string6 P w port) = None" by (simp add: i)
  show "files (snd (initializeNftablesConf string6 P w port)) = (files w)(nftablesConf \<mapsto> doc)"
    by (simp add: i WriteString_def f2(1))
qed

lemma initializeNftablesConf_frame:
  "createFails (snd (initializeNftablesConf string6 P w port)) = createFails w \<and>
   commandFails (snd (initializeNftablesConf string6 P w port)) = commandFails w \<and>
   commands (snd (initializeNftablesConf string6 P w port)) = commands w"
  by (auto simp: initializeNftablesConf_def case_prod_beta readOrEmpty_frame logMsg_simps
      os_Create_def WriteString_def renderNftablesTemplate_def)

lemma runCommand_frame:
  "files (snd (runCommand w argv)) = files w \<and> commandFails (snd (runCommand w argv)) = commandFails w \<and>
   commands (snd (runCommand w argv)) = commands w @ [argv] \<and> logs (snd (runCommand w argv)) = logs w"
  by (simp add: runCommand_def)

lemma runCommand_fst: "fst (runCommand w argv) = (if commandFails w argv then Some (ExitFailure argv) else None)"
  by (simp add: runCommand_def)

lemma applyNftables_commands:
  "commands (snd (applyNftables w)) =
     commands w @
     (if commandFails w [''nft'', ''-f'', nftablesConf] then [[''nft'', ''-f'', nftablesConf]]
      else [[''nft'', ''-f'', nftablesConf], [''systemctl'', ''enable'', ''--now'', ''nftables'']])"
  by (auto simp: applyNftables_def runCommand_def logMsg_def split: prod.splits option.splits if_splits)

lemma applyNftables_fst:
  "commandFails w [''nft'', ''-f'', nftablesConf] \<Longrightarrow>
   fst (applyNftables w) =
     Some (Wrapped ''failed to apply nftables configuration'' (ExitFailure [''nft'', ''-f'', nftablesConf]))"
  by (simp add: applyNftables_def runCommand_def logMsg_def)

lemma applyNftables_frame:
  "files (snd (applyNftables w)) = files w \<and> set (logs w) \<subseteq> set (logs (snd (applyNftables w)))"
  by (auto simp: applyNftables_def runCommand_def logMsg_def split: prod.splits option.splits if_splits)

lemma verifyNftables_frame:
  "files (snd (verifyNftables w)) = files w \<and> set (logs w) \<subseteq> set (logs (snd (verifyNftables w)))"
  by (auto simp: verifyNftables_def runCommand_def logMsg_def)

lemma readOrEmpty_logs: "set (logs w) \<subseteq> set (logs (snd (readOrEmpty P w f)))"
  by (auto simp: readOrEmpty_def logMsg_def split: sum.splits)

lemma initializeNftablesConf_logs:
  "set (logs w) \<subseteq> set (logs (snd (initializeNftablesConf string6 P w port)))"
proof -
  let ?w0 = "logMsg LevelInfo ''initializing nftables configuration'' w"
  let ?w1 = "snd (readOrEmpty P ?w0 ipv4File)"
  let ?w2 = "snd (readOrEmpty P ?w1 ipv6File)"
  have "set (logs w) \<subseteq> set (logs ?w0)" by (auto simp: logMsg_def)
  also have "\<dots> \<subseteq> set (logs ?w1)" by (rule readOrEmpty_logs)
  also have "\<dots> \<subseteq> set (logs ?w2)" by (rule readOrEmpty_logs)
  also have "logs ?w2 = logs (snd (initializeNftablesConf string6 P w port))"
    by (auto simp: initializeNftablesConf_def case_prod_beta os_Create_def WriteString_def
        renderNftablesTemplate_def)
  finally show ?thesis .
qed

lemma portOrDefault_frame:
  "files (snd (portOrDefault w)) = files w \<and> createFails (snd (portOrDefault w)) = createFails w \<and>
   commandFails (snd (portOrDefault w)) = commandFails w \<and> commands (snd (portOrDefault w)) = commands w"
  using findSSHPort_frame[of w]
  by (cases "findSSHPort w") (auto simp: portOrDefault_def logMsg_simps split: sum.splits)

lemma portOrDefault_fst:
  "fst (portOrDefault w) = (case fst (findSSHPort w) of Inl err \<Rightarrow> defaultSSHPort | Inr port \<Rightarrow> port)"
  by (cases "findSSHPort w") (auto simp: portOrDefault_def split: sum.splits)

lemma portOrDefault_warns:
  "isl (fst (findSSHPort w)) \<Longrightarrow>
   (LevelWarn, ''couldn't find port from sshd configuration file, using default 22'')
     \<in> set (logs (snd (portOrDefault w)))"
  by (cases "findSSHPort w") (auto simp: portOrDefault_def logMsg_def split: sum.splits)

lemma startSetupNftables_files:
  "files (snd (startSetupNftables string6 P w)) =
   files (snd (initializeNftablesConf string6 P (snd (portOrDefault w)) (fst (portOrDefault w))))"
proof -
  have a: "files (snd (applyNftables w')) = files w'" for w' by (simp add: applyNftables_frame)
  have v: "files (snd (verifyNftables w')) = files w'" for w' by (simp add: verifyNftables_frame)
  show ?thesis
    using a v
    by (auto simp: startSetupNftables_def case_prod_beta logMsg_simps split: option.splits)
qed

lemma startSetupNftables_logs:
  "set (logs (snd (portOrDefault w))) \<subseteq> set (logs (snd (startSetupNftables string6 P w)))"
proof -
  let ?w1 = "snd (portOrDefault w)"
  let ?i = "initializeNftablesConf string6 P ?w1 (fst (portOrDefault w))"
  have i: "set (logs ?w1) \<subseteq> set (logs (snd ?i))" by (rule initializeNftablesConf_logs)
  have l: "set (logs w') \<subseteq> set (logs (logMsg lv msg w'))" for w' lv msg by (auto simp: logMsg_def)
  have a: "set (logs w') \<subseteq> set (logs (snd (applyNftables w')))" for w' by (simp add: applyNftables_frame)
  have v: "set (logs w') \<subseteq> set (logs (snd (verifyNftables w')))" for w' by (simp add: verifyNftables_frame)
  show ?thesis
    using i
    by (auto simp: startSetupNftables_def case_prod_beta split: option.splits
        intro!: subsetD[OF l] subsetD[OF a] subsetD[OF v])
qed

lemma portOrDefault_logs: "set (logs (snd (findSSHPort w))) \<subseteq> set (logs (snd (portOrDefault w)))"
  by (cases "findSSHPort w") (auto simp: portOrDefault_def logMsg_def split: sum.splits)

lemma startSetupNftables_keeps_logs:
  "set (logs (snd (findSSHPort w))) \<subseteq> set (logs (snd (startSetupNftables string6 P w)))"
  using portOrDefault_logs[of w] startSetupNftables_logs[of w string6 P] by (rule subset_trans)

lemma startSetupNftables_init_error:
  "fst (initializeNftablesConf string6 P (snd (portOrDefault w)) (fst (portOrDefault w))) = Some err \<Longrightarrow>
   fst (startSetupNftables string6 P w) = Some (Wrapped ''failed to initialize nftables configuration'' err) \<and>
   commands (snd (startSetupNftables string6 P w)) = commands w"
  using initializeNftablesConf_frame[of string6 P "snd (portOrDefault w)" "fst (portOrDefault w)"]
  by (auto simp: startSetupNftables_def case_prod_beta portOrDefault_frame split: option.splits)

lemma startSetupNftables_completes:
  assumes "fst (initializeNftablesConf string6 P (snd (portOrDefault w)) (fst (portOrDefault w))) = None"
    and "\<not> commandFails w [''nft'', ''-f'', nftablesConf]"
    and "\<not> commandFails w [''systemctl'', ''enable'', ''--now'', ''nftables'']"
    and "\<not> commandFails w [''nft'', ''list'', ''ruleset'']"
  shows "fst (startSetupNftables string6 P w) = None"
  using assms
  by (simp add: startSetupNftables_def case_prod_beta applyNftables_def verifyNftables_def
      runCommand_def logMsg_simps initializeNftablesConf_frame portOrDefault_frame)

lemmas port_eval = portOfLine_def FindStringSubmatch_def ParseUint16_def reSpace_def isDigit_def
  digitVal_def ScanLines_def dropCR_def MaxScanTokenSize_def NL_def List.map_filter_simps

lemma TrimLeft_done: "spaceWidth s = 0 \<Longrightarrow> TrimLeft s = s"
  by (subst TrimLeft.simps) simp

lemma TrimLeft_step: "spaceWidth s \<noteq> 0 \<Longrightarrow> TrimLeft s = TrimLeft (drop (spaceWidth s) s)"
  by (subst TrimLeft.simps) simp

lemma TrimRight_done: "lastSpaceWidth s = 0 \<Longrightarrow> TrimRight s = s"
  by (subst TrimRight.simps) simp

lemma TrimRight_step:
  "lastSpaceWidth s \<noteq> 0 \<Longrightarrow> TrimRight s = TrimRight (take (length s - lastSpaceWidth s) s)"
  by (subst TrimRight.simps) simp

lemmas trim_eval = TrimSpace_def TrimLeft_done TrimLeft_step TrimRight_done TrimRight_step
  spaceWidth_def lastSpaceWidth_def spaceRunes_def

lemmas read_eval = readOrEmpty_def readPrefixes_def os_Open_def ScanLines_def dropCR_def
  MaxScanTokenSize_def NL_def trim_eval ipv4File_def ipv6File_def nftablesConf_def sshdConfigPath_def

section \<open>No prefixes, no ruleset\<close>

text \<open>
  Claim C5. When the lists read from both prefix files are empty (a file that is absent,
  empty or does not parse gives the empty list), \<open>initializeNftablesConf\<close> returns the error
  for empty prefix lists and leaves every file as it was, the ruleset file among them;
  \<open>startSetupNftables\<close> returns this error wrapped, leaves every file as it was and runs no
  command.
\<close>

theorem empty_prefix_lists_write_no_ruleset:
  assumes "fst (readOrEmpty ParsePrefix w ipv4File) = []"
    and "fst (readOrEmpty ParsePrefix w ipv6File) = []"
  shows
  "fst (initializeNftablesConf string6 ParsePrefix w sshdPort) = Some PrefixListsEmpty \<and>
   files (snd (initializeNftablesConf string6 ParsePrefix w sshdPort)) = files w \<and>
   fst (startSetupNftables string6 ParsePrefix w) =
     Some (Wrapped ''failed to initialize nftables configuration'' PrefixListsEmpty) \<and>
   files (snd (startSetupNftables string6 ParsePrefix w)) = files w \<and>
   commands (snd (startSetupNftables string6 ParsePrefix w)) = commands w"
proof -
  let ?w1 = "snd (portOrDefault w)"
  have f: "files ?w1 = files w" by (simp add: portOrDefault_frame)
  have a: "fst (readOrEmpty ParsePrefix ?w1 ipv4File) = []"
    using assms(1) readOrEmpty_fst[OF f] by simp
  have b: "fst (readOrEmpty ParsePrefix ?w1 ipv6File) = []"
    using assms(2) readOrEmpty_fst[OF f] by simp
  note i = initializeNftablesConf_empty[OF a b, of string6 "fst (portOrDefault w)"]
  from startSetupNftables_init_error[OF i(1)] i(2) f
  show ?thesis
    using initializeNftablesConf_empty[OF assms, of string6 sshdPort]
    by (simp add: startSetupNftables_files)
qed

text \<open>No IPv4 file, an empty IPv6 file: the ruleset written earlier stays.\<close>

theorem empty_prefix_lists_write_no_ruleset_witness:
  "fst (startSetupNftables (\<lambda>a. []) (\<lambda>s. None)
         (emptyWorld\<lparr>files := [nftablesConf \<mapsto> ''flush ruleset'', ipv6File \<mapsto> []]\<rparr>)) =
     Some (Wrapped ''failed to initialize nftables configuration'' PrefixListsEmpty) \<and>
   files (snd (startSetupNftables (\<lambda>a. []) (\<lambda>s. None)
         (emptyWorld\<lparr>files := [nftablesConf \<mapsto> ''flush ruleset'', ipv6File \<mapsto> []]\<rparr>))) nftablesConf =
     Some ''flush ruleset''"
proof -
  let ?w = "emptyWorld\<lparr>files := [nftablesConf \<mapsto> ''flush ruleset'', ipv6File \<mapsto> []]\<rparr>"
  have a: "fst (readOrEmpty (\<lambda>s. None) ?w ipv4File) = []"
    by (rule readOrEmpty_missing) (simp add: ipv4File_def ipv6File_def nftablesConf_def)
  have b: "fst (readOrEmpty (\<lambda>s. None) ?w ipv6File) = []"
    by (rule readOrEmpty_missing) (simp add: ipv4File_def ipv6File_def nftablesConf_def)
  from empty_prefix_lists_write_no_ruleset[OF a b, of "\<lambda>a. []" 22]
  show ?thesis by (simp add: ipv6File_def nftablesConf_def)
qed

section \<open>Load before enable\<close>

text \<open>
  Claim C6. \<open>applyNftables\<close> runs the load command first and the enable command only after a
  load that succeeded. When the load command fails, \<open>applyNftables\<close> returns an error and has
  run the load command only; \<open>startSetupNftables\<close> then returns an error and has run at most
  the load command.
\<close>

theorem load_failure_stops_before_enable:
  "commands (snd (applyNftables w)) =
     commands w @
     (if commandFails w [''nft'', ''-f'', nftablesConf] then [[''nft'', ''-f'', nftablesConf]]
      else [[''nft'', ''-f'', nftablesConf], [''systemctl'', ''enable'', ''--now'', ''nftables'']]) \<and>
   (commandFails w [''nft'', ''-f'', nftablesConf] \<longrightarrow>
      fst (applyNftables w) =
        Some (Wrapped ''failed to apply nftables configuration'' (ExitFailure [''nft'', ''-f'', nftablesConf])) \<and>
      commands (snd (applyNftables w)) = commands w @ [[''nft'', ''-f'', nftablesConf]] \<and>
      (\<exists>err. fst (startSetupNftables string6 ParsePrefix w) = Some err) \<and>
      (commands (snd (startSetupNftables string6 ParsePrefix w)) = commands w \<or>
       commands (snd (startSetupNftables string6 ParsePrefix w)) = commands w @ [[''nft'', ''-f'', nftablesConf]]))"
proof (intro conjI impI)
  show "commands (snd (applyNftables w)) =
     commands w @
     (if commandFails w [''nft'', ''-f'', nftablesConf] then [[''nft'', ''-f'', nftablesConf]]
      else [[''nft'', ''-f'', nftablesConf], [''systemctl'', ''enable'', ''--now'', ''nftables'']])"
    by (rule applyNftables_commands)
next
  assume c: "commandFails w [''nft'', ''-f'', nftablesConf]"
  show "fst (applyNftables w) =
        Some (Wrapped ''failed to apply nftables configuration'' (ExitFailure [''nft'', ''-f'', nftablesConf]))"
    using c by (rule applyNftables_fst)
  show "commands (snd (applyNftables w)) = commands w @ [[''nft'', ''-f'', nftablesConf]]"
    using c by (simp add: applyNftables_commands)
  let ?w1 = "snd (portOrDefault w)"
  let ?i = "initializeNftablesConf string6 ParsePrefix ?w1 (fst (portOrDefault w))"
  let ?w2 = "logMsg LevelInfo ''nftables configuration initialized'' (snd ?i)"
  have c2: "commandFails ?w2 [''nft'', ''-f'', nftablesConf]"
    using c by (simp add: logMsg_simps initializeNftablesConf_frame portOrDefault_frame)
  have k2: "commands ?w2 = commands w"
    by (simp add: logMsg_simps initializeNftablesConf_frame portOrDefault_frame)
  have s: "(\<exists>err. fst (startSetupNftables string6 ParsePrefix w) = Some err) \<and>
      (commands (snd (startSetupNftables string6 ParsePrefix w)) = commands w \<or>
       commands (snd (startSetupNftables string6 ParsePrefix w)) = commands w @ [[''nft'', ''-f'', nftablesConf]])"
  proof (cases "fst ?i")
    case (Some err)
    from startSetupNftables_init_error[OF this] show ?thesis by simp
  next
    case None
    then show ?thesis
      using applyNftables_fst[OF c2] applyNftables_commands[of ?w2] c2 k2
      by (simp add: startSetupNftables_def case_prod_beta)
  qed
  from s show "\<exists>err. fst (startSetupNftables string6 ParsePrefix w) = Some err" by simp
  from s show "commands (snd (startSetupNftables string6 ParsePrefix w)) = commands w \<or>
       commands (snd (startSetupNftables string6 ParsePrefix w)) = commands w @ [[''nft'', ''-f'', nftablesConf]]"
    by simp
qed

text \<open>A world in which every \<^verbatim>\<open>nft\<close> command fails.\<close>

theorem load_failure_stops_before_enable_witness:
  "commands (snd (applyNftables (emptyWorld\<lparr>commandFails := (\<lambda>argv. hd argv = ''nft'')\<rparr>))) =
     [[''nft'', ''-f'', ''/etc/nftables.conf'']] \<and>
   fst (applyNftables (emptyWorld\<lparr>commandFails := (\<lambda>argv. hd argv = ''nft'')\<rparr>)) =
     Some (Wrapped ''failed to apply nftables configuration''
            (ExitFailure [''nft'', ''-f'', ''/etc/nftables.conf'']))"
  using load_failure_stops_before_enable[of "emptyWorld\<lparr>commandFails := (\<lambda>argv. hd argv = ''nft'')\<rparr>"
      "\<lambda>a. []" "\<lambda>s. None"]
  by (simp add: emptyWorld_simps nftablesConf_def)


section \<open>The renderer is deterministic\<close>

text \<open>
  Claim C7. For every port and every two lists of prefixes \<open>renderNftablesTemplate\<close> returns
  a document and no error, and two renderings of the same arguments return the same document.
  The document \<open>initializeNftablesConf\<close> writes is this one in every world: two runs that read
  the same lists with the same port write the same bytes, whatever else the two worlds hold.
\<close>

theorem renderNftablesTemplate_deterministic:
  "(\<exists>doc. renderNftablesTemplate string6 sshdPort v4 v6 = Inr doc) \<and>
   (\<forall>d1 d2. renderNftablesTemplate string6 sshdPort v4 v6 = Inr d1 \<and>
            renderNftablesTemplate string6 sshdPort v4 v6 = Inr d2 \<longrightarrow> d1 = d2) \<and>
   (\<forall>w w'. fst (readOrEmpty ParsePrefix w ipv4File) = v4 \<and> fst (readOrEmpty ParsePrefix w ipv6File) = v6 \<and>
            fst (readOrEmpty ParsePrefix w' ipv4File) = v4 \<and> fst (readOrEmpty ParsePrefix w' ipv6File) = v6 \<and>
            (v4 \<noteq> [] \<or> v6 \<noteq> []) \<and> \<not> createFails w nftablesConf \<and> \<not> createFails w' nftablesConf \<longrightarrow>
      files (snd (initializeNftablesConf string6 ParsePrefix w sshdPort)) nftablesConf =
      files (snd (initializeNftablesConf string6 ParsePrefix w' sshdPort)) nftablesConf \<and>
      renderNftablesTemplate string6 sshdPort v4 v6 =
        Inr (the (files (snd (initializeNftablesConf string6 ParsePrefix w sshdPort)) nftablesConf)))"
proof (intro conjI allI impI)
  show "\<exists>doc. renderNftablesTemplate string6 sshdPort v4 v6 = Inr doc"
    by (rule renderNftablesTemplate_total)
next
  fix d1 d2
  assume "renderNftablesTemplate string6 sshdPort v4 v6 = Inr d1 \<and>
          renderNftablesTemplate string6 sshdPort v4 v6 = Inr d2"
  then have "(Inr d1 :: error + string) = Inr d2" by metis
  then show "d1 = d2" by simp
next
  fix w w'
  assume h: "fst (readOrEmpty ParsePrefix w ipv4File) = v4 \<and> fst (readOrEmpty ParsePrefix w ipv6File) = v6 \<and>
            fst (readOrEmpty ParsePrefix w' ipv4File) = v4 \<and> fst (readOrEmpty ParsePrefix w' ipv6File) = v6 \<and>
            (v4 \<noteq> [] \<or> v6 \<noteq> []) \<and> \<not> createFails w nftablesConf \<and> \<not> createFails w' nftablesConf"
  obtain doc where doc: "renderNftablesTemplate string6 sshdPort v4 v6 = Inr doc"
    using renderNftablesTemplate_total by blast
  have a: "files (snd (initializeNftablesConf string6 ParsePrefix w sshdPort)) = (files w)(nftablesConf \<mapsto> doc)"
    using h doc by (intro initializeNftablesConf_writes(2)[of ParsePrefix w v4 v6]) simp_all
  have b: "files (snd (initializeNftablesConf string6 ParsePrefix w' sshdPort)) = (files w')(nftablesConf \<mapsto> doc)"
    using h doc by (intro initializeNftablesConf_writes(2)[of ParsePrefix w' v4 v6]) simp_all
  show "files (snd (initializeNftablesConf string6 ParsePrefix w sshdPort)) nftablesConf =
      files (snd (initializeNftablesConf string6 ParsePrefix w' sshdPort)) nftablesConf"
    by (simp add: a b)
  show "renderNftablesTemplate string6 sshdPort v4 v6 =
        Inr (the (files (snd (initializeNftablesConf string6 ParsePrefix w sshdPort)) nftablesConf))"
    by (simp add: a doc)
qed

text \<open>
  Two worlds with the same IPv4 file, one of them with an earlier ruleset file and an earlier
  command: the same document is written, given here byte by byte.
\<close>

theorem renderNftablesTemplate_deterministic_witness:
  "files (snd (initializeNftablesConf (\<lambda>a. [])
                 (\<lambda>s. if s = ''198.51.100.0/24'' then Some (PrefixOf (IPv4 0xC6336400) 24) else None)
                 (emptyWorld\<lparr>files := [ipv4File \<mapsto> ''198.51.100.0/24'' @ NL]\<rparr>) 2222)) nftablesConf =
   files (snd (initializeNftablesConf (\<lambda>a. [])
                 (\<lambda>s. if s = ''198.51.100.0/24'' then Some (PrefixOf (IPv4 0xC6336400) 24) else None)
                 (emptyWorld\<lparr>files := [ipv4File \<mapsto> ''198.51.100.0/24'' @ NL, nftablesConf \<mapsto> ''flush ruleset''],
                    commands := [[''nft'', ''list'', ''ruleset'']]\<rparr>) 2222)) nftablesConf \<and>
   files (snd (initializeNftablesConf (\<lambda>a. [])
                 (\<lambda>s. if s = ''198.51.100.0/24'' then Some (PrefixOf (IPv4 0xC6336400) 24) else None)
                 (emptyWorld\<lparr>files := [ipv4File \<mapsto> ''198.51.100.0/24'' @ NL]\<rparr>) 2222)) nftablesConf =
   Some (''#!/usr/sbin/nft -f'' @ NL @ NL @ ''flush ruleset'' @ NL @ NL @ ''table inet filter {'' @
         NL @ TAB @ ''set allowed_ipv4 {'' @
         NL @ TAB @ TAB @ ''type ipv4_addr; flags interval; auto-merge;'' @
         NL @ TAB @ TAB @ ''elements = {'' @
         NL @ TAB @ TAB @ TAB @ ''198.51.100.0/24'' @
         NL @ TAB @ TAB @ ''}'' @ NL @ TAB @ ''}'' @
         NL @ NL @ TAB @ ''chain input {'' @
         NL @ TAB @ TAB @ ''type filter hook input priority filter; policy drop;'' @
         NL @ TAB @ TAB @ ''ct state established,related accept'' @
         NL @ TAB @ TAB @ ''iif lo accept'' @
         NL @ TAB @ TAB @ ''tcp dport 2222 accept'' @
         NL @ TAB @ TAB @ ''ip saddr @allowed_ipv4 accept'' @
         NL @ TAB @ ''}'' @ NL @ NL @ TAB @ ''chain forward {'' @
         NL @ TAB @ TAB @ ''type filter hook forward priority filter; policy drop;'' @
         NL @ TAB @ ''}'' @ NL @ NL @ TAB @ ''chain output {'' @
         NL @ TAB @ TAB @ ''type filter hook output priority filter; policy accept;'' @
         NL @ TAB @ ''}'' @ NL @ ''}'' @ NL)"
proof -
  let ?P = "\<lambda>s. if s = ''198.51.100.0/24'' then Some (PrefixOf (IPv4 0xC6336400) 24) else None"
  let ?w = "emptyWorld\<lparr>files := [ipv4File \<mapsto> ''198.51.100.0/24'' @ NL]\<rparr>"
  let ?w' = "emptyWorld\<lparr>files := [ipv4File \<mapsto> ''198.51.100.0/24'' @ NL, nftablesConf \<mapsto> ''flush ruleset''],
                    commands := [[''nft'', ''list'', ''ruleset'']]\<rparr>"
  let ?v4 = "[PrefixOf (IPv4 0xC6336400) 24]"
  have h: "fst (readOrEmpty ?P ?w ipv4File) = ?v4 \<and> fst (readOrEmpty ?P ?w ipv6File) = [] \<and>
           fst (readOrEmpty ?P ?w' ipv4File) = ?v4 \<and> fst (readOrEmpty ?P ?w' ipv6File) = [] \<and>
           (?v4 \<noteq> [] \<or> [] \<noteq> []) \<and> \<not> createFails ?w nftablesConf \<and> \<not> createFails ?w' nftablesConf"
    by (simp add: read_eval emptyWorld_simps)
  note t = renderNftablesTemplate_deterministic[of "\<lambda>a. []" 2222 ?v4 "[]" ?P,
      THEN conjunct2, THEN conjunct2, THEN spec, THEN spec, THEN mp, OF h]
  have r: "renderNftablesTemplate (\<lambda>a. []) 2222 ?v4 [] = Inr d \<Longrightarrow> d =
        ''#!/usr/sbin/nft -f'' @ NL @ NL @ ''flush ruleset'' @ NL @ NL @ ''table inet filter {'' @
         NL @ TAB @ ''set allowed_ipv4 {'' @
         NL @ TAB @ TAB @ ''type ipv4_addr; flags interval; auto-merge;'' @
         NL @ TAB @ TAB @ ''elements = {'' @
         NL @ TAB @ TAB @ TAB @ ''198.51.100.0/24'' @
         NL @ TAB @ TAB @ ''}'' @ NL @ TAB @ ''}'' @
         NL @ NL @ TAB @ ''chain input {'' @
         NL @ TAB @ TAB @ ''type filter hook input priority filter; policy drop;'' @
         NL @ TAB @ TAB @ ''ct state established,related accept'' @
         NL @ TAB @ TAB @ ''iif lo accept'' @
         NL @ TAB @ TAB @ ''tcp dport 2222 accept'' @
         NL @ TAB @ TAB @ ''ip saddr @allowed_ipv4 accept'' @
         NL @ TAB @ ''}'' @ NL @ NL @ TAB @ ''chain forward {'' @
         NL @ TAB @ TAB @ ''type filter hook forward priority filter; policy drop;'' @
         NL @ TAB @ ''}'' @ NL @ NL @ TAB @ ''chain output {'' @
         NL @ TAB @ TAB @ ''type filter hook output priority filter; policy accept;'' @
         NL @ TAB @ ''}'' @ NL @ ''}'' @ NL" for d
    by (simp add: renderNftablesTemplate_def sshRule_def text_eval)
  have w: "files (snd (initializeNftablesConf (\<lambda>a. []) ?P ?w 2222)) =
           (files ?w)(nftablesConf \<mapsto> the (files (snd (initializeNftablesConf (\<lambda>a. []) ?P ?w 2222)) nftablesConf))"
    using h t[THEN conjunct2]
    by (intro initializeNftablesConf_writes(2)[of ?P ?w ?v4 "[]"]) simp_all
  from t[THEN conjunct1] r[OF t[THEN conjunct2]] w show ?thesis
    by (metis fun_upd_same)
qed

section \<open>The port of the SSH rule\<close>

text \<open>
  Claim C9, as amended. \<open>findSSHPort\<close> looks at the lines the scanner yields from the sshd
  configuration and returns the port of the first of them that matches the regular expression
  and whose number parses as an unsigned integer of 16 bits; it returns an error when the file
  cannot be opened or no line yielded is such a line. Besides the record of its start it logs
  one warning \<^verbatim>\<open>fail to parse Port\<close> for every line before that first line that matches and
  does not parse, and nothing else. The scanner yields the lines that end with a line feed
  within \<open>MaxScanTokenSize\<close> bytes, one after the other, and stops without an error at the
  first line that has that many bytes and no line feed: what follows is not looked at.
  After an error \<open>startSetupNftables\<close> takes the default port 22 and logs a warning, and the
  records of \<open>findSSHPort\<close> stay in its log. When the prefix lists read are not both empty and
  the ruleset file can be created, the file then holds the document rendered for this port,
  which contains the rule accepting TCP to this port, and when the three external commands
  succeed \<open>startSetupNftables\<close> returns no error.
\<close>

theorem ssh_port_discovery:
  "fst (findSSHPort w) =
     (case files w sshdConfigPath of
        None \<Rightarrow> Inl (Wrapped ''could not open sshd configuration'' (OpenFailed sshdConfigPath))
      | Some conf \<Rightarrow>
          (case List.map_filter portOfLine (ScanLines conf) of
             [] \<Rightarrow> Inl PortNotFound
           | m # rest \<Rightarrow> Inr (of_nat m))) \<and>
   logs (snd (findSSHPort w)) =
     logs w @ (LevelInfo, ''finding SSH port'') #
       (case files w sshdConfigPath of
          None \<Rightarrow> []
        | Some conf \<Rightarrow>
            map (\<lambda>line. (LevelWarn, ''fail to parse Port''))
              (filter (\<lambda>line. FindStringSubmatch line \<noteq> None)
                 (takeWhile (\<lambda>line. portOfLine line = None) (ScanLines conf)))) \<and>
   ((\<forall>l\<in>set ls. CHR 0x0A \<notin> set l \<and> length l < MaxScanTokenSize) \<longrightarrow>
      ScanLines (concat (map (\<lambda>l. l @ NL) ls)) = map dropCR ls \<and>
      (CHR 0x0A \<notin> set long \<and> MaxScanTokenSize \<le> length long \<longrightarrow>
         ScanLines (concat (map (\<lambda>l. l @ NL) ls) @ long @ tail) = map dropCR ls)) \<and>
   fst (portOrDefault w) = (case fst (findSSHPort w) of Inl err \<Rightarrow> defaultSSHPort | Inr port \<Rightarrow> port) \<and>
   set (logs (snd (findSSHPort w))) \<subseteq> set (logs (snd (startSetupNftables string6 ParsePrefix w))) \<and>
   (isl (fst (findSSHPort w)) \<longrightarrow>
      (LevelWarn, ''couldn't find port from sshd configuration file, using default 22'')
        \<in> set (logs (snd (startSetupNftables string6 ParsePrefix w)))) \<and>
   (fst (readOrEmpty ParsePrefix w ipv4File) = v4 \<and> fst (readOrEmpty ParsePrefix w ipv6File) = v6 \<and>
    (v4 \<noteq> [] \<or> v6 \<noteq> []) \<and> \<not> createFails w nftablesConf \<longrightarrow>
      renderNftablesTemplate string6 (fst (portOrDefault w)) v4 v6 =
        Inr (the (files (snd (startSetupNftables string6 ParsePrefix w)) nftablesConf)) \<and>
      (\<exists>pre post. files (snd (startSetupNftables string6 ParsePrefix w)) nftablesConf =
         Some (pre @ sshRule (fst (portOrDefault w)) @ post)) \<and>
      (\<not> commandFails w [''nft'', ''-f'', nftablesConf] \<and>
       \<not> commandFails w [''systemctl'', ''enable'', ''--now'', ''nftables''] \<and>
       \<not> commandFails w [''nft'', ''list'', ''ruleset''] \<longrightarrow>
         fst (startSetupNftables string6 ParsePrefix w) = None))"
proof (intro conjI impI)
  show "fst (findSSHPort w) =
     (case files w sshdConfigPath of
        None \<Rightarrow> Inl (Wrapped ''could not open sshd configuration'' (OpenFailed sshdConfigPath))
      | Some conf \<Rightarrow>
          (case List.map_filter portOfLine (ScanLines conf) of
             [] \<Rightarrow> Inl PortNotFound
           | m # rest \<Rightarrow> Inr (of_nat m)))"
    by (rule findSSHPort_first)
  show "logs (snd (findSSHPort w)) =
     logs w @ (LevelInfo, ''finding SSH port'') #
       (case files w sshdConfigPath of
          None \<Rightarrow> []
        | Some conf \<Rightarrow>
            map (\<lambda>line. (LevelWarn, ''fail to parse Port''))
              (filter (\<lambda>line. FindStringSubmatch line \<noteq> None)
                 (takeWhile (\<lambda>line. portOfLine line = None) (ScanLines conf))))"
    by (rule findSSHPort_logs)
  show "fst (portOrDefault w) = (case fst (findSSHPort w) of Inl err \<Rightarrow> defaultSSHPort | Inr port \<Rightarrow> port)"
    by (rule portOrDefault_fst)
  show "set (logs (snd (findSSHPort w))) \<subseteq> set (logs (snd (startSetupNftables string6 ParsePrefix w)))"
    by (rule startSetupNftables_keeps_logs)
next
  assume ls: "\<forall>l\<in>set ls. CHR 0x0A \<notin> set l \<and> length l < MaxScanTokenSize"
  have e: "ScanLines [] = []" by (simp add: ScanLines_def)
  show "ScanLines (concat (map (\<lambda>l. l @ NL) ls)) = map dropCR ls"
    using ScanLines_lines[OF ls, of "[]"] e by simp
  assume "CHR 0x0A \<notin> set long \<and> MaxScanTokenSize \<le> length long"
  then have "ScanLines (long @ tail) = []" by (simp add: ScanLines_too_long)
  then show "ScanLines (concat (map (\<lambda>l. l @ NL) ls) @ long @ tail) = map dropCR ls"
    using ScanLines_lines[OF ls, of "long @ tail"] by simp
next
  assume "isl (fst (findSSHPort w))"
  then show "(LevelWarn, ''couldn't find port from sshd configuration file, using default 22'')
        \<in> set (logs (snd (startSetupNftables string6 ParsePrefix w)))"
    using startSetupNftables_logs[of w string6 ParsePrefix] portOrDefault_warns[of w] by blast
next
  assume h: "fst (readOrEmpty ParsePrefix w ipv4File) = v4 \<and> fst (readOrEmpty ParsePrefix w ipv6File) = v6 \<and>
    (v4 \<noteq> [] \<or> v6 \<noteq> []) \<and> \<not> createFails w nftablesConf"
  let ?w1 = "snd (portOrDefault w)"
  let ?port = "fst (portOrDefault w)"
  have f: "files ?w1 = files w" by (simp add: portOrDefault_frame)
  obtain pre post where doc: "renderNftablesTemplate string6 ?port v4 v6 = Inr (pre @ sshRule ?port @ post)"
    using renderNftablesTemplate_sshRule by blast
  have a: "fst (readOrEmpty ParsePrefix ?w1 ipv4File) = v4" "fst (readOrEmpty ParsePrefix ?w1 ipv6File) = v6"
    using h readOrEmpty_fst[OF f] by simp_all
  have c: "\<not> createFails ?w1 nftablesConf" using h by (simp add: portOrDefault_frame)
  have n: "v4 \<noteq> [] \<or> v6 \<noteq> []" using h by simp
  note i = initializeNftablesConf_writes[OF a n c doc]
  have fs: "files (snd (startSetupNftables string6 ParsePrefix w)) nftablesConf = Some (pre @ sshRule ?port @ post)"
    by (simp add: startSetupNftables_files i(2))
  show "renderNftablesTemplate string6 ?port v4 v6 =
        Inr (the (files (snd (startSetupNftables string6 ParsePrefix w)) nftablesConf))"
    by (simp add: fs doc)
  show "\<exists>pre post. files (snd (startSetupNftables string6 ParsePrefix w)) nftablesConf =
         Some (pre @ sshRule ?port @ post)"
    using fs by blast
  assume "\<not> commandFails w [''nft'', ''-f'', nftablesConf] \<and>
       \<not> commandFails w [''systemctl'', ''enable'', ''--now'', ''nftables''] \<and>
       \<not> commandFails w [''nft'', ''list'', ''ruleset'']"
  then show "fst (startSetupNftables string6 ParsePrefix w) = None"
    using i(1) by (simp add: startSetupNftables_completes)
qed

text \<open>
  A configuration with a comment, then \<^verbatim>\<open>Port 70000\<close>, \<^verbatim>\<open>Port 2222\<close> and \<^verbatim>\<open>Port 22\<close>: the first
  directive is out of range and is logged, the second gives the rule \<^verbatim>\<open>tcp dport 2222 accept\<close>
  and the third is not reached. Without the configuration file a warning is logged, the rule
  is \<^verbatim>\<open>tcp dport 22 accept\<close> and the setup completes. A directive behind a line of
  \<open>MaxScanTokenSize\<close> bytes is not seen, and the port is the default.
\<close>

theorem ssh_port_discovery_witness:
  "fst (findSSHPort (emptyWorld\<lparr>files :=
          [sshdConfigPath \<mapsto> ''# sshd'' @ NL @ ''Port 70000'' @ NL @ ''Port 2222'' @ NL @ ''Port 22'' @ NL,
           ipv4File \<mapsto> ''198.51.100.0/24'' @ NL]\<rparr>)) = Inr 2222 \<and>
   logs (snd (findSSHPort (emptyWorld\<lparr>files :=
          [sshdConfigPath \<mapsto> ''# sshd'' @ NL @ ''Port 70000'' @ NL @ ''Port 2222'' @ NL @ ''Port 22'' @ NL,
           ipv4File \<mapsto> ''198.51.100.0/24'' @ NL]\<rparr>))) =
     [(LevelInfo, ''finding SSH port''), (LevelWarn, ''fail to parse Port'')] \<and>
   (LevelWarn, ''fail to parse Port'')
     \<in> set (logs (snd (startSetupNftables (\<lambda>a. [])
                    (\<lambda>s. if s = ''198.51.100.0/24'' then Some (PrefixOf (IPv4 0xC6336400) 24) else None)
                    (emptyWorld\<lparr>files :=
                       [sshdConfigPath \<mapsto>
                          ''# sshd'' @ NL @ ''Port 70000'' @ NL @ ''Port 2222'' @ NL @ ''Port 22'' @ NL,
                        ipv4File \<mapsto> ''198.51.100.0/24'' @ NL]\<rparr>)))) \<and>
   (\<exists>pre post.
      files (snd (startSetupNftables (\<lambda>a. [])
                    (\<lambda>s. if s = ''198.51.100.0/24'' then Some (PrefixOf (IPv4 0xC6336400) 24) else None)
                    (emptyWorld\<lparr>files :=
                       [sshdConfigPath \<mapsto>
                          ''# sshd'' @ NL @ ''Port 70000'' @ NL @ ''Port 2222'' @ NL @ ''Port 22'' @ NL,
                        ipv4File \<mapsto> ''198.51.100.0/24'' @ NL]\<rparr>)))
        nftablesConf =
      Some (pre @ NL @ TAB @ TAB @ ''tcp dport 2222 accept'' @ post)) \<and>
   fst (startSetupNftables (\<lambda>a. [])
          (\<lambda>s. if s = ''198.51.100.0/24'' then Some (PrefixOf (IPv4 0xC6336400) 24) else None)
          (emptyWorld\<lparr>files :=
             [sshdConfigPath \<mapsto> ''# sshd'' @ NL @ ''Port 70000'' @ NL @ ''Port 2222'' @ NL @ ''Port 22'' @ NL,
              ipv4File \<mapsto> ''198.51.100.0/24'' @ NL]\<rparr>)) = None \<and>
   fst (findSSHPort (emptyWorld\<lparr>files := [ipv4File \<mapsto> ''198.51.100.0/24'' @ NL]\<rparr>)) =
     Inl (Wrapped ''could not open sshd configuration'' (OpenFailed sshdConfigPath)) \<and>
   (LevelWarn, ''couldn't find port from sshd configuration file, using default 22'')
     \<in> set (logs (snd (startSetupNftables (\<lambda>a. [])
                    (\<lambda>s. if s = ''198.51.100.0/24'' then Some (PrefixOf (IPv4 0xC6336400) 24) else None)
                    (emptyWorld\<lparr>files := [ipv4File \<mapsto> ''198.51.100.0/24'' @ NL]\<rparr>)))) \<and>
   (\<exists>pre post.
      files (snd (startSetupNftables (\<lambda>a. [])
                    (\<lambda>s. if s = ''198.51.100.0/24'' then Some (PrefixOf (IPv4 0xC6336400) 24) else None)
                    (emptyWorld\<lparr>files := [ipv4File \<mapsto> ''198.51.100.0/24'' @ NL]\<rparr>)))
        nftablesConf =
      Some (pre @ NL @ TAB @ TAB @ ''tcp dport 22 accept'' @ post)) \<and>
   fst (startSetupNftables (\<lambda>a. [])
          (\<lambda>s. if s = ''198.51.100.0/24'' then Some (PrefixOf (IPv4 0xC6336400) 24) else None)
          (emptyWorld\<lparr>files := [ipv4File \<mapsto> ''198.51.100.0/24'' @ NL]\<rparr>)) = None \<and>
   ScanLines (''Port 70000'' @ NL @ replicate MaxScanTokenSize (CHR ''x'') @ NL @ ''Port 2222'' @ NL) =
     [''Port 70000''] \<and>
   fst (findSSHPort (emptyWorld\<lparr>files :=
          [sshdConfigPath \<mapsto>
             ''Port 70000'' @ NL @ replicate MaxScanTokenSize (CHR ''x'') @ NL @ ''Port 2222'' @ NL]\<rparr>)) =
     Inl PortNotFound \<and>
   fst (portOrDefault (emptyWorld\<lparr>files :=
          [sshdConfigPath \<mapsto>
             ''Port 70000'' @ NL @ replicate MaxScanTokenSize (CHR ''x'') @ NL @ ''Port 2222'' @ NL]\<rparr>)) = 22"
proof -
  let ?conf = "''# sshd'' @ NL @ ''Port 70000'' @ NL @ ''Port 2222'' @ NL @ ''Port 22'' @ NL"
  let ?w = "emptyWorld\<lparr>files := [sshdConfigPath \<mapsto> ?conf, ipv4File \<mapsto> ''198.51.100.0/24'' @ NL]\<rparr>"
  let ?v = "emptyWorld\<lparr>files := [ipv4File \<mapsto> ''198.51.100.0/24'' @ NL]\<rparr>"
  let ?long = "replicate MaxScanTokenSize (CHR ''x'')"
  let ?tail = "NL @ ''Port 2222'' @ NL"
  let ?confx = "''Port 70000'' @ NL @ ?long @ NL @ ''Port 2222'' @ NL"
  let ?x = "emptyWorld\<lparr>files := [sshdConfigPath \<mapsto> ?confx]\<rparr>"
  let ?P = "\<lambda>s. if s = ''198.51.100.0/24'' then Some (PrefixOf (IPv4 0xC6336400) 24) else None"
  note t = ssh_port_discovery[of ?w "[]" "[]" "[]" "\<lambda>a. []" ?P "[PrefixOf (IPv4 0xC6336400) 24]" "[]"]
  note d = ssh_port_discovery[of ?v "[]" "[]" "[]" "\<lambda>a. []" ?P "[PrefixOf (IPv4 0xC6336400) 24]" "[]"]
  note x = ssh_port_discovery[of ?x "[''Port 70000'']" ?long ?tail "\<lambda>a. []" ?P "[]" "[]"]
  have ports: "List.map_filter portOfLine (ScanLines ?conf) = [2222, 22]"
    by (simp add: port_eval)
  have skipped: "filter (\<lambda>line. FindStringSubmatch line \<noteq> None)
                   (takeWhile (\<lambda>line. portOfLine line = None) (ScanLines ?conf)) = [''Port 70000'']"
    by (simp add: port_eval)
  have fw: "files ?w sshdConfigPath = Some ?conf"
    by (simp add: ipv4File_def sshdConfigPath_def)
  have found: "fst (findSSHPort ?w) = Inr 2222"
    using t[THEN conjunct1] unfolding fw option.case ports by simp
  have lw: "logs (snd (findSSHPort ?w)) = [(LevelInfo, ''finding SSH port''), (LevelWarn, ''fail to parse Port'')]"
    using t[THEN conjunct2, THEN conjunct1] unfolding fw option.case skipped
    by (simp add: emptyWorld_simps)
  have kept: "(LevelWarn, ''fail to parse Port'') \<in> set (logs (snd (startSetupNftables (\<lambda>a. []) ?P ?w)))"
    using t[THEN conjunct2, THEN conjunct2, THEN conjunct2, THEN conjunct2, THEN conjunct1]
    unfolding lw by simp
  have port: "fst (portOrDefault ?w) = 2222"
    using t[THEN conjunct2, THEN conjunct2, THEN conjunct2, THEN conjunct1] found by simp
  have h: "fst (readOrEmpty ?P ?w ipv4File) = [PrefixOf (IPv4 0xC6336400) 24] \<and>
           fst (readOrEmpty ?P ?w ipv6File) = [] \<and>
           ([PrefixOf (IPv4 0xC6336400) 24] \<noteq> [] \<or> [] \<noteq> []) \<and> \<not> createFails ?w nftablesConf"
    by (simp add: read_eval emptyWorld_simps)
  have c: "\<not> commandFails ?w [''nft'', ''-f'', nftablesConf] \<and>
       \<not> commandFails ?w [''systemctl'', ''enable'', ''--now'', ''nftables''] \<and>
       \<not> commandFails ?w [''nft'', ''list'', ''ruleset'']"
    by (simp add: emptyWorld_simps)
  note u = t[THEN conjunct2, THEN conjunct2, THEN conjunct2, THEN conjunct2, THEN conjunct2,
             THEN conjunct2, THEN mp, OF h]
  have rule: "sshRule 2222 = NL @ TAB @ TAB @ ''tcp dport 2222 accept''"
    by (simp add: sshRule_def itoa_digit itoa_step digitChar_def)
  from u[THEN conjunct2, THEN conjunct1] have r1:
    "\<exists>pre post. files (snd (startSetupNftables (\<lambda>a. []) ?P ?w)) nftablesConf =
       Some (pre @ NL @ TAB @ TAB @ ''tcp dport 2222 accept'' @ post)"
    unfolding port rule by simp
  have r2: "fst (startSetupNftables (\<lambda>a. []) ?P ?w) = None"
    by (rule u[THEN conjunct2, THEN conjunct2, THEN mp, OF c])
  have missing: "fst (findSSHPort ?v) =
                 Inl (Wrapped ''could not open sshd configuration'' (OpenFailed sshdConfigPath))"
    using d[THEN conjunct1] by (simp add: ipv4File_def sshdConfigPath_def)
  then have i: "isl (fst (findSSHPort ?v))" by simp
  have port': "fst (portOrDefault ?v) = 22"
    using d[THEN conjunct2, THEN conjunct2, THEN conjunct2, THEN conjunct1] missing
    by (simp add: defaultSSHPort_def)
  have h': "fst (readOrEmpty ?P ?v ipv4File) = [PrefixOf (IPv4 0xC6336400) 24] \<and>
           fst (readOrEmpty ?P ?v ipv6File) = [] \<and>
           ([PrefixOf (IPv4 0xC6336400) 24] \<noteq> [] \<or> [] \<noteq> []) \<and> \<not> createFails ?v nftablesConf"
    by (simp add: read_eval emptyWorld_simps)
  have c': "\<not> commandFails ?v [''nft'', ''-f'', nftablesConf] \<and>
       \<not> commandFails ?v [''systemctl'', ''enable'', ''--now'', ''nftables''] \<and>
       \<not> commandFails ?v [''nft'', ''list'', ''ruleset'']"
    by (simp add: emptyWorld_simps)
  note u' = d[THEN conjunct2, THEN conjunct2, THEN conjunct2, THEN conjunct2, THEN conjunct2,
              THEN conjunct2, THEN mp, OF h']
  have rule': "sshRule 22 = NL @ TAB @ TAB @ ''tcp dport 22 accept''"
    by (simp add: sshRule_def itoa_digit itoa_step digitChar_def)
  note r3 = d[THEN conjunct2, THEN conjunct2, THEN conjunct2, THEN conjunct2, THEN conjunct2,
              THEN conjunct1, THEN mp, OF i]
  from u'[THEN conjunct2, THEN conjunct1] have r4:
    "\<exists>pre post. files (snd (startSetupNftables (\<lambda>a. []) ?P ?v)) nftablesConf =
       Some (pre @ NL @ TAB @ TAB @ ''tcp dport 22 accept'' @ post)"
    unfolding port' rule' by simp
  have r5: "fst (startSetupNftables (\<lambda>a. []) ?P ?v) = None"
    by (rule u'[THEN conjunct2, THEN conjunct2, THEN mp, OF c'])
  have hl: "\<forall>l\<in>set [''Port 70000'']. CHR 0x0A \<notin> set l \<and> length l < MaxScanTokenSize"
    by (simp add: MaxScanTokenSize_def)
  have hx: "CHR 0x0A \<notin> set ?long \<and> MaxScanTokenSize \<le> length ?long"
    by simp
  have sx: "ScanLines ?confx = [''Port 70000'']"
    using x[THEN conjunct2, THEN conjunct2, THEN conjunct1, THEN mp, OF hl, THEN conjunct2, THEN mp, OF hx]
    by (simp add: dropCR_def)
  have fx: "files ?x sshdConfigPath = Some ?confx"
    by simp
  have px: "List.map_filter portOfLine [''Port 70000''] = []"
    by (simp add: portOfLine_def FindStringSubmatch_def ParseUint16_def reSpace_def isDigit_def
        digitVal_def List.map_filter_simps)
  have long: "fst (findSSHPort ?x) = Inl PortNotFound"
    using x[THEN conjunct1] unfolding fx option.case sx px by simp
  have portx: "fst (portOrDefault ?x) = 22"
    using x[THEN conjunct2, THEN conjunct2, THEN conjunct2, THEN conjunct1] long
    by (simp add: defaultSSHPort_def)
  show ?thesis
    by (intro conjI found lw kept r1 r2 missing r3 r4 r5 sx long portx)
qed

text \<open>
  Claim C9 as stated fails where it says that the first match wins: the line
  \<^verbatim>\<open>Port 70000\<close> matches, its number does not fit 16 bits, a warning is logged and the port of
  the next matching line is returned; with no other matching line the result is the error
  that leads to the default port.
\<close>

theorem first_port_directive_out_of_range_skipped:
  "FindStringSubmatch ''Port 70000'' = Some ''70000'' \<and>
   fst (findSSHPort (emptyWorld\<lparr>files :=
          [sshdConfigPath \<mapsto> ''Port 70000'' @ NL @ ''Port 2222'' @ NL]\<rparr>)) = Inr 2222 \<and>
   logs (snd (findSSHPort (emptyWorld\<lparr>files :=
          [sshdConfigPath \<mapsto> ''Port 70000'' @ NL @ ''Port 2222'' @ NL]\<rparr>))) =
     [(LevelInfo, ''finding SSH port''), (LevelWarn, ''fail to parse Port'')] \<and>
   fst (findSSHPort (emptyWorld\<lparr>files := [sshdConfigPath \<mapsto> ''Port 70000'' @ NL]\<rparr>)) =
     Inl PortNotFound"
  by (simp add: findSSHPort_first findSSHPort_logs port_eval emptyWorld_simps)


end
